theory Spec2Isabelle
  imports Complex_Main "HOL-Library.Sublist" "HOL-Library.AList"
begin

section \<open>Conventions of the embedding\<close>

text \<open>
  The storefront script \<^verbatim>\<open>timer.js\<close> is embedded function by function.
  Timestamps are epoch milliseconds, as \<^verbatim>\<open>Date.now()\<close> returns them, and are
  integers. A JavaScript value that is \<^verbatim>\<open>null\<close> is \<open>None\<close>. Where the source
  divides or takes a remainder of numbers, the model computes over the reals, exactly;
  the rounding of IEEE doubles is not part of the model. Whatever a function reads from
  its surroundings (the clock, the location, the storage areas, the server's answers) is
  an argument of its model, and whatever it writes is returned.
\<close>

section \<open>Base timer handler\<close>

text \<open>
  The remainder operator \<^verbatim>\<open>%\<close> on numbers: the quotient is truncated towards zero,
  so the result carries the sign of the dividend.
\<close>

definition js_rem :: "real \<Rightarrow> real \<Rightarrow> real" where
  "js_rem x m = x - m * of_int (if 0 \<le> x / m then \<lfloor>x / m\<rfloor> else \<lceil>x / m\<rceil>)"

record time_remaining =
  total_ms :: int
  days :: int
  hours :: int
  minutes :: int
  seconds :: int

text \<open>
  \<^verbatim>\<open>TimerHandler.getTimeRemaining\<close>. The first argument is the handler's field
  \<^verbatim>\<open>endTime\<close>, the second the value of \<^verbatim>\<open>Date.now()\<close>. The guard
  \<^verbatim>\<open>if (!this.endTime) return null\<close> is a truthiness test: it fires for
  \<^verbatim>\<open>null\<close> and for the number 0.
\<close>

definition getTimeRemaining :: "int option \<Rightarrow> int \<Rightarrow> time_remaining option" where
  "getTimeRemaining endTime now =
     (case endTime of
        None \<Rightarrow> None
      | Some e \<Rightarrow>
          if e = 0 then None
          else
            let total = e - now in
            if total \<le> 0 then
              Some \<lparr>total_ms = 0, days = 0, hours = 0, minutes = 0, seconds = 0\<rparr>
            else
              Some \<lparr>total_ms = total,
                    days = \<lfloor>real_of_int total / (1000 * 60 * 60 * 24)\<rfloor>,
                    hours = \<lfloor>js_rem (real_of_int total / (1000 * 60 * 60)) 24\<rfloor>,
                    minutes = \<lfloor>js_rem (real_of_int total / (1000 * 60)) 60\<rfloor>,
                    seconds = \<lfloor>js_rem (real_of_int total / 1000) 60\<rfloor>\<rparr>)"

text \<open>
  \<^verbatim>\<open>TimerHandler.isActive\<close> returns \<^verbatim>\<open>remaining && remaining.total > 0\<close>; the
  model gives the truthiness of that value.
\<close>

definition isActive :: "int option \<Rightarrow> int \<Rightarrow> bool" where
  "isActive endTime now =
     (case getTimeRemaining endTime now of None \<Rightarrow> False | Some r \<Rightarrow> 0 < total_ms r)"

section \<open>Page targeting\<close>

text \<open>
  \<^verbatim>\<open>String.prototype.startsWith\<close> and \<^verbatim>\<open>endsWith\<close>, and \<^verbatim>\<open>slice(0, -1)\<close>,
  which drops the last character.
\<close>

definition startsWith :: "string \<Rightarrow> string \<Rightarrow> bool" where
  "startsWith s p = prefix p s"

definition endsWith :: "string \<Rightarrow> string \<Rightarrow> bool" where
  "endsWith s p = suffix p s"

definition pageTypes :: "(string \<times> string) list" where
  "pageTypes =
     [(''home'', ''/''),
      (''collection'', ''/collections/''),
      (''product'', ''/products/''),
      (''cart'', ''/cart''),
      (''checkout'', ''/checkout''),
      (''page'', ''/pages/''),
      (''blog'', ''/blogs/'')]"

text \<open>
  \<^verbatim>\<open>matchPage(path, pattern)\<close>, with the four tests in the order of the source.
  The table lookup \<^verbatim>\<open>pageTypes[pattern]\<close> is modelled on the table's own seven
  keys; every value of the table is a non-empty string, hence truthy.
\<close>

definition matchPage :: "string \<Rightarrow> string \<Rightarrow> bool" where
  "matchPage path pattern =
     (if pattern = ''*'' \<or> pattern = ''/'' then True
      else if path = pattern then True
      else if endsWith pattern ''*'' then startsWith path (butlast pattern)
      else
        (case map_of pageTypes pattern of
           Some p \<Rightarrow>
             if pattern = ''home'' then path = ''/'' \<or> path = ''''
             else startsWith path p
         | None \<Rightarrow> False))"

section \<open>Timer engine: the render loop\<close>

text \<open>
  Of the engine's fields the render loop uses \<^verbatim>\<open>lastUpdateTime\<close>, which the
  constructor sets to 0. The field \<open>displayUpdates\<close> is the trace of the calls of
  \<^verbatim>\<open>updateAllDisplays\<close>: the frame timestamp of each call, oldest first. Frame
  timestamps are fractional milliseconds.
\<close>

record timer_engine =
  lastUpdateTime :: real
  displayUpdates :: "real list"

definition TimerEngine :: timer_engine where
  "TimerEngine = \<lparr>lastUpdateTime = 0, displayUpdates = []\<rparr>"

text \<open>
  The frame callback \<^verbatim>\<open>update(timestamp)\<close> of \<^verbatim>\<open>startCountdown\<close>; after it
  the callback asks for the next frame, so the loop is the callback run over the
  timestamps of the frames the browser delivers.
\<close>

definition update :: "real \<Rightarrow> timer_engine \<Rightarrow> timer_engine" where
  "update timestamp eng =
     (if timestamp - lastUpdateTime eng \<ge> 1000
      then eng\<lparr>lastUpdateTime := timestamp,
               displayUpdates := displayUpdates eng @ [timestamp]\<rparr>
      else eng)"

definition startCountdown :: "real list \<Rightarrow> timer_engine \<Rightarrow> timer_engine" where
  "startCountdown frames eng = fold update frames eng"

text \<open>
  What the loop maintains: the recorded calls are at least 1000 apart, each one to the
  next, and \<^verbatim>\<open>lastUpdateTime\<close> is the timestamp of the latest call, once there is one.
\<close>

definition throttled :: "timer_engine \<Rightarrow> bool" where
  "throttled eng =
     (successively (\<lambda>a b. 1000 \<le> b - a) (displayUpdates eng) \<and>
      (displayUpdates eng = [] \<or> lastUpdateTime eng = last (displayUpdates eng)))"

section \<open>Timer configuration and clock\<close>

text \<open>
  The configuration object that \<^verbatim>\<open>extractTimerData\<close> builds from the element's data
  attributes, with the fields the handlers below read. A numeric field is \<open>None\<close> when
  the attribute is missing (the source stores \<^verbatim>\<open>null\<close>). The three list-valued
  attributes hold JSON text that the handlers parse, falling back to a default when the
  attribute is empty or the text does not parse: the field here is the parsed array, and
  \<open>None\<close> in both of those cases.
\<close>

record timer =
  timer_id :: string
  evergreenDuration :: "int option"
  evergreenResetDelay :: "int option"
  dailyStartTime :: "string option"
  dailyEndTime :: "string option"
  recurringDays :: "int list option"
  cartThreshold :: "real option"
  cartTimerDuration :: "int option"
  showOnAllPages :: bool
  targetPages :: "string list option"
  excludePages :: "string list option"

text \<open>
  One reading of the clock: \<^verbatim>\<open>Date.now()\<close>, and the weekday, hour and minute that
  \<^verbatim>\<open>getDayOfWeekInTimezone\<close> and \<^verbatim>\<open>getTimeInTimezone\<close> report for the timer's
  time zone. The calls a handler makes within one synchronous evaluation see one reading.
\<close>

record clock =
  clock_now :: int
  clock_day :: int
  clock_hour :: int
  clock_minute :: int

subsection \<open>Parsing "HH:MM"\<close>

text \<open>
  \<^verbatim>\<open>parseTimeToMinutes\<close> splits at the colons and applies \<^verbatim>\<open>Number\<close> to the
  parts. The model covers the parts that are strings of decimal digits, where
  \<^verbatim>\<open>Number\<close> gives the decimal value (and 0 for the empty string); for any other
  text it answers \<open>NotHHMM\<close> and says nothing about the number the source computes.
\<close>

datatype unmodelled = NotHHMM

definition digit_of :: "char \<Rightarrow> nat option" where
  "digit_of c =
     (let n = (of_char c :: nat) in if 48 \<le> n \<and> n \<le> 57 then Some (n - 48) else None)"

fun digits_value :: "string \<Rightarrow> nat \<Rightarrow> nat option" where
  "digits_value [] acc = Some acc"
| "digits_value (c # cs) acc =
     (case digit_of c of None \<Rightarrow> None | Some d \<Rightarrow> digits_value cs (10 * acc + d))"

definition Number_of_digits :: "string \<Rightarrow> int option" where
  "Number_of_digits s = map_option int (digits_value s 0)"

text \<open>\<^verbatim>\<open>String.prototype.split\<close> with a one-character separator.\<close>

fun split_string :: "char \<Rightarrow> string \<Rightarrow> string list" where
  "split_string sep [] = [[]]"
| "split_string sep (c # cs) =
     (if c = sep then [] # split_string sep cs
      else (case split_string sep cs of p # ps \<Rightarrow> (c # p) # ps | [] \<Rightarrow> [[c]]))"

definition parseTimeToMinutes :: "string option \<Rightarrow> unmodelled + int" where
  "parseTimeToMinutes timeStr =
     (case timeStr of
        None \<Rightarrow> Inr 0
      | Some s \<Rightarrow>
          if s = [] then Inr 0
          else
            (case split_string (CHR '':'') s of
               h # m # _ \<Rightarrow>
                 (case (Number_of_digits h, Number_of_digits m) of
                    (Some hrs, Some mins) \<Rightarrow> Inr (hrs * 60 + mins)
                  | _ \<Rightarrow> Inl NotHHMM)
             | _ \<Rightarrow> Inl NotHHMM))"

section \<open>Recurring (daily) timer handler\<close>

definition parseRecurringDays :: "timer \<Rightarrow> int list" where
  "parseRecurringDays t =
     (case recurringDays t of None \<Rightarrow> [0, 1, 2, 3, 4, 5, 6] | Some ds \<Rightarrow> ds)"

text \<open>
  The window test of \<^verbatim>\<open>RecurringTimerHandler.calculateEndTime\<close>: from the start,
  end and current minute of the day to the locals \<^verbatim>\<open>isInWindow\<close> and
  \<^verbatim>\<open>minutesUntilEnd\<close>.
\<close>

definition recurringWindow :: "int \<Rightarrow> int \<Rightarrow> int \<Rightarrow> bool \<times> int" where
  "recurringWindow startMinutes endMinutes currentMinutes =
     (let isOvernight = endMinutes < startMinutes in
      if isOvernight then
        (if currentMinutes \<ge> startMinutes \<or> currentMinutes < endMinutes then
           (True, if currentMinutes \<ge> startMinutes
                  then (24 * 60 - currentMinutes) + endMinutes
                  else endMinutes - currentMinutes)
         else (False, 0))
      else
        (if currentMinutes \<ge> startMinutes \<and> currentMinutes < endMinutes then
           (True, endMinutes - currentMinutes)
         else (False, 0)))"

definition RecurringTimerHandler_calculateEndTime ::
    "timer \<Rightarrow> clock \<Rightarrow> unmodelled + int option" where
  "RecurringTimerHandler_calculateEndTime t c =
     (let currentDay = clock_day c;
          currentMinutes = clock_hour c * 60 + clock_minute c
      in
      if currentDay \<notin> set (parseRecurringDays t) then Inr None
      else
        (case parseTimeToMinutes (dailyStartTime t) of
           Inl u \<Rightarrow> Inl u
         | Inr startMinutes \<Rightarrow>
             (case parseTimeToMinutes (dailyEndTime t) of
                Inl u \<Rightarrow> Inl u
              | Inr endMinutes \<Rightarrow>
                  (case recurringWindow startMinutes endMinutes currentMinutes of
                     (isInWindow, minutesUntilEnd) \<Rightarrow>
                       if \<not> isInWindow then Inr None
                       else Inr (Some (clock_now c + minutesUntilEnd * 60 * 1000))))))"

text \<open>
  \<^verbatim>\<open>RecurringTimerHandler.isActive\<close> stores the recomputed end-timestamp in the
  handler and asks the base class; the model returns the answer and the stored value.
\<close>

definition RecurringTimerHandler_isActive ::
    "timer \<Rightarrow> clock \<Rightarrow> unmodelled + (bool \<times> int option)" where
  "RecurringTimerHandler_isActive t c =
     (case RecurringTimerHandler_calculateEndTime t c of
        Inl u \<Rightarrow> Inl u
      | Inr endTime \<Rightarrow> Inr (isActive endTime (clock_now c), endTime))"

section \<open>Cart timer handler\<close>












subsection \<open>Sample configurations\<close>

text \<open>A timer with no attribute set, from which the samples below are built.\<close>

definition blank_timer :: timer where
  "blank_timer =
     \<lparr>timer_id = ''t1'', evergreenDuration = None, evergreenResetDelay = None,
      dailyStartTime = None, dailyEndTime = None, recurringDays = None,
      cartThreshold = None, cartTimerDuration = None,
      showOnAllPages = True, targetPages = None, excludePages = None\<rparr>"

definition overnight_timer :: timer where
  "overnight_timer =
     blank_timer\<lparr>dailyStartTime := Some ''22:00'', dailyEndTime := Some ''06:00''\<rparr>"


section \<open>Browser storage\<close>

text \<open>
  A storage area (\<^verbatim>\<open>localStorage\<close> or \<^verbatim>\<open>sessionStorage\<close>) as the script sees it
  through its wrappers. The area may refuse to be read or written (disabled storage,
  exhausted quota): then \<^verbatim>\<open>getItem\<close> or \<^verbatim>\<open>setItem\<close> throws, and the wrapper
  catches the exception. The script keeps JSON text under keys of disjoint families
  (closed timers, evergreen cycles, cart cycles, impression marks); the model gives each
  family its own area, holding the parsed values. A key with no text, with empty text or
  with text that does not parse is a key without an item.
\<close>

record 'v storage =
  readable :: bool
  writable :: bool
  items :: "string \<rightharpoonup> 'v"

text \<open>
  \<^verbatim>\<open>safeGetStorage(key, defaultValue)\<close>: \<open>None\<close> stands for the default, which the
  caller supplies. \<^verbatim>\<open>safeSetStorage(key, value)\<close> returns whether the write took
  place, and the area.
\<close>

definition safeGetStorage :: "string \<Rightarrow> 'v storage \<Rightarrow> 'v option" where
  "safeGetStorage key st = (if readable st then items st key else None)"

definition safeSetStorage :: "string \<Rightarrow> 'v \<Rightarrow> 'v storage \<Rightarrow> bool \<times> 'v storage" where
  "safeSetStorage key v st =
     (if writable st then (True, st\<lparr>items := (items st)(key \<mapsto> v)\<rparr>) else (False, st))"

text \<open>The same two wrappers over \<^verbatim>\<open>sessionStorage\<close>.\<close>

definition safeGetSession :: "string \<Rightarrow> 'v storage \<Rightarrow> 'v option" where
  "safeGetSession key st = (if readable st then items st key else None)"

definition safeSetSession :: "string \<Rightarrow> 'v \<Rightarrow> 'v storage \<Rightarrow> bool \<times> 'v storage" where
  "safeSetSession key v st =
     (if writable st then (True, st\<lparr>items := (items st)(key \<mapsto> v)\<rparr>) else (False, st))"

section \<open>Evergreen timer handler\<close>

text \<open>The stored object \<^verbatim>\<open>{ startTime, resetAt }\<close>.\<close>

record evergreen_cycle =
  startTime :: int
  resetAt :: "int option"

text \<open>
  The handler's fields. \<^verbatim>\<open>storageKey\<close> is fixed by the constructor from the timer
  id and the visitor id.
\<close>

record evergreen_handler =
  eg_timer :: timer
  storageKey :: string
  eg_endTime :: "int option"

text \<open>
  \<^verbatim>\<open>setNewStartTime(startTime)\<close> returns the new end-timestamp and the storage. In
  arithmetic \<^verbatim>\<open>null\<close> counts as 0.
\<close>

definition setNewStartTime ::
    "evergreen_handler \<Rightarrow> int \<Rightarrow> evergreen_cycle storage \<Rightarrow> int \<times> evergreen_cycle storage" where
  "setNewStartTime h start st =
     (let duration = (case evergreenDuration (eg_timer h) of None \<Rightarrow> 0 | Some d \<Rightarrow> d);
          endTime = start + duration * 60 * 1000
      in (endTime,
          snd (safeSetStorage (storageKey h) \<lparr>startTime = start, resetAt = None\<rparr> st)))"

definition EvergreenTimerHandler_calculateEndTime ::
    "evergreen_handler \<Rightarrow> int \<Rightarrow> evergreen_cycle storage
       \<Rightarrow> int option \<times> evergreen_cycle storage" where
  "EvergreenTimerHandler_calculateEndTime h now st =
     (case evergreenDuration (eg_timer h) of
        None \<Rightarrow> (None, st)
      | Some duration \<Rightarrow>
          if duration = 0 then (None, st)
          else
            (case safeGetStorage (storageKey h) st of
               Some stored \<Rightarrow>
                 if (case resetAt stored of None \<Rightarrow> False | Some r \<Rightarrow> r \<noteq> 0 \<and> now \<ge> r)
                 then
                   (case setNewStartTime h now st of (e, st') \<Rightarrow> (Some e, st'))
                 else
                   (let endTime = startTime stored + duration * 60 * 1000 in
                    if now \<ge> endTime then
                      (let resetDelay =
                             (case evergreenResetDelay (eg_timer h) of None \<Rightarrow> 0 | Some d \<Rightarrow> d)
                               * 60 * 1000
                       in
                       if resetDelay > 0 then
                         (let resetAt' = endTime + resetDelay;
                              st1 = snd (safeSetStorage (storageKey h)
                                      \<lparr>startTime = startTime stored, resetAt = Some resetAt'\<rparr> st)
                          in
                          if now < resetAt' then (None, st1)
                          else (case setNewStartTime h now st1 of (e, st') \<Rightarrow> (Some e, st')))
                       else
                         (case setNewStartTime h now st of (e, st') \<Rightarrow> (Some e, st')))
                    else (Some endTime, st))
             | None \<Rightarrow>
                 (case setNewStartTime h now st of (e, st') \<Rightarrow> (Some e, st'))))"

definition EvergreenTimerHandler_initialize ::
    "evergreen_handler \<Rightarrow> int \<Rightarrow> evergreen_cycle storage
       \<Rightarrow> evergreen_handler \<times> evergreen_cycle storage" where
  "EvergreenTimerHandler_initialize h now st =
     (case EvergreenTimerHandler_calculateEndTime h now st of
        (e, st') \<Rightarrow> (h\<lparr>eg_endTime := e\<rparr>, st'))"

text \<open>
  \<^verbatim>\<open>EvergreenTimerHandler.isActive\<close> recomputes the end-timestamp, stores it in the
  handler and asks the base class: the answer, the handler and the storage.
\<close>

definition EvergreenTimerHandler_isActive ::
    "evergreen_handler \<Rightarrow> int \<Rightarrow> evergreen_cycle storage
       \<Rightarrow> bool \<times> evergreen_handler \<times> evergreen_cycle storage" where
  "EvergreenTimerHandler_isActive h now st =
     (case EvergreenTimerHandler_calculateEndTime h now st of
        (e, st') \<Rightarrow> (isActive e now, h\<lparr>eg_endTime := e\<rparr>, st'))"

section \<open>Closed timers\<close>

text \<open>
  The closed-timer object maps a timer id to the time it was closed. It is a list of
  entries in the order of insertion, each key once; assigning to a key is
  \<open>AList.update\<close>. \<^verbatim>\<open>getClosedTimers\<close> returns the surviving ids and the storage.
\<close>

definition CLOSED :: string where
  "CLOSED = ''countdown_timer_closed''"

text \<open>The read \<^verbatim>\<open>safeGetStorage(STORAGE_KEYS.CLOSED, {})\<close> that both functions begin with.\<close>

definition closedData :: "(string \<times> int) list storage \<Rightarrow> (string \<times> int) list" where
  "closedData st = (case safeGetStorage CLOSED st of None \<Rightarrow> [] | Some d \<Rightarrow> d)"

definition getClosedTimers ::
    "int \<Rightarrow> (string \<times> int) list storage \<Rightarrow> string list \<times> (string \<times> int) list storage" where
  "getClosedTimers now st =
     (let data = closedData st;
          filtered =
            fold (\<lambda>(ident, timestamp) acc.
                    if now - timestamp < 24 * 60 * 60 * 1000
                    then AList.update ident timestamp acc else acc)
                 data [];
          st' = (if length filtered \<noteq> length data
                 then snd (safeSetStorage CLOSED filtered st) else st)
      in (map fst filtered, st'))"

definition saveClosedTimer ::
    "string \<Rightarrow> int \<Rightarrow> (string \<times> int) list storage \<Rightarrow> (string \<times> int) list storage" where
  "saveClosedTimer timerId now st =
     (let data = closedData st
      in snd (safeSetStorage CLOSED (AList.update timerId now data) st))"

section \<open>Bootstrap\<close>

definition shouldShowOnPage :: "timer \<Rightarrow> string \<Rightarrow> bool" where
  "shouldShowOnPage t currentPath =
     (if showOnAllPages t then
        (case excludePages t of
           Some excludes \<Rightarrow>
             if list_ex (\<lambda>pattern. matchPage currentPath pattern) excludes then False else True
         | None \<Rightarrow> True)
      else
        (case targetPages t of
           Some targets \<Rightarrow> list_ex (\<lambda>pattern. matchPage currentPath pattern) targets
         | None \<Rightarrow> False))"

text \<open>
  What the loop of \<^verbatim>\<open>initTimers\<close> decides for one timer element before it registers
  it: the three \<^verbatim>\<open>continue\<close> exits in their order, the second and third of which hide
  the element, or the way on to impression tracking and registration.
\<close>

datatype disposition = SkippedNoId | HiddenClosed | HiddenByPage | Registered

definition initTimers_element :: "string list \<Rightarrow> string \<Rightarrow> timer \<Rightarrow> disposition" where
  "initTimers_element closedTimers currentPath t =
     (if timer_id t = [] then SkippedNoId
      else if timer_id t \<in> set closedTimers then HiddenClosed
      else if \<not> shouldShowOnPage t currentPath then HiddenByPage
      else Registered)"

text \<open>
  \<^verbatim>\<open>initTimers\<close> over the timer elements found in the container (it returns before
  reading the closed timers when there is none).
\<close>

definition initTimers ::
    "int \<Rightarrow> string \<Rightarrow> timer list \<Rightarrow> (string \<times> int) list storage
       \<Rightarrow> disposition list \<times> (string \<times> int) list storage" where
  "initTimers now currentPath timerEls st =
     (if timerEls = [] then ([], st)
      else
        (case getClosedTimers now st of
           (closedTimers, st') \<Rightarrow> (map (initTimers_element closedTimers currentPath) timerEls, st')))"

subsection \<open>Sample states\<close>

definition ten_minute_evergreen :: evergreen_handler where
  "ten_minute_evergreen =
     \<lparr>eg_timer = blank_timer\<lparr>evergreenDuration := Some 10\<rparr>,
      storageKey = ''countdown_evergreen_t1_v_abc'',
      eg_endTime = None\<rparr>"

definition empty_storage :: "'v storage" where
  "empty_storage = \<lparr>readable = True, writable = True, items = Map.empty\<rparr>"

definition blocked_storage :: "'v storage" where
  "blocked_storage = \<lparr>readable = False, writable = False, items = Map.empty\<rparr>"

definition two_closed :: "(string \<times> int) list storage" where
  "two_closed =
     \<lparr>readable = True, writable = True,
      items = [CLOSED \<mapsto> [(''t1'', 1700000000000), (''t2'', 1600000000000)]]\<rparr>"


section \<open>Analytics\<close>

text \<open>
  A request handed to \<^verbatim>\<open>fetch\<close>: the event and timer id of its payload, the path of
  the page it was sent from and the attempt counter of the call that sent it. The state
  of the analytics code is the session storage holding the impression marks, and the
  requests issued so far, oldest first.
\<close>

record request =
  req_event :: string
  req_timerId :: string
  req_path :: string
  req_retryCount :: nat

record analytics =
  session :: "bool storage"
  requests :: "request list"

definition fetch :: "request \<Rightarrow> analytics \<Rightarrow> analytics" where
  "fetch r a = a\<lparr>requests := requests a @ [r]\<rparr>"

text \<open>
  The mark \<^verbatim>\<open>safeGetSession(sessionKey, false)\<close> of an impression on a page.
\<close>

definition sessionKey :: "string \<Rightarrow> string \<Rightarrow> string" where
  "sessionKey timerId path = ''impression_'' @ timerId @ ''_'' @ path"

definition alreadyTracked :: "string \<Rightarrow> string \<Rightarrow> analytics \<Rightarrow> bool" where
  "alreadyTracked timerId path a =
     (case safeGetSession (sessionKey timerId path) (session a) of
        None \<Rightarrow> False
      | Some b \<Rightarrow> b)"

text \<open>
  \<^verbatim>\<open>sendAnalyticsEvent(event, timerId, retryCount)\<close> up to and including the call of
  \<^verbatim>\<open>fetch\<close>, on the page with the given path: whether a request was issued, and the
  state. An empty timer id is falsy.
\<close>

definition sendAnalyticsEvent ::
    "string \<Rightarrow> string \<Rightarrow> nat \<Rightarrow> string \<Rightarrow> analytics \<Rightarrow> bool \<times> analytics" where
  "sendAnalyticsEvent event timerId retryCount path a =
     (if timerId = [] then (False, a)
      else
        (let payload = \<lparr>req_event = event, req_timerId = timerId, req_path = path,
                        req_retryCount = retryCount\<rparr>
         in
         if event = ''impression'' then
           (if alreadyTracked timerId path a then (False, a)
            else
              (let a1 = a\<lparr>session :=
                           snd (safeSetSession (sessionKey timerId path) True (session a))\<rparr>
               in (True, fetch payload a1)))
         else (True, fetch payload a)))"

text \<open>
  How the promise returned by \<^verbatim>\<open>fetch\<close> settles: with a response of some status,
  whose body can then be read or not (\<^verbatim>\<open>response.text()\<close> rejects), or with a
  rejection (a network-level failure).
\<close>

datatype fetch_outcome = Responded nat bool | Rejected

definition response_ok :: "nat \<Rightarrow> bool" where
  "response_ok status = (200 \<le> status \<and> status \<le> 299)"

text \<open>
  What the handlers attached to the promise do once it has settled: the delay in
  milliseconds of the \<^verbatim>\<open>setTimeout\<close> that will call
  \<^verbatim>\<open>sendAnalyticsEvent(event, timerId, retryCount + 1)\<close>, or \<open>None\<close> when none is set.
  For a response that is not ok the decision is taken in the continuation of
  \<^verbatim>\<open>response.text()\<close>; when that promise rejects, its own \<^verbatim>\<open>catch\<close> only logs.
\<close>

definition scheduledRetry :: "fetch_outcome \<Rightarrow> nat \<Rightarrow> nat option" where
  "scheduledRetry outcome retryCount =
     (case outcome of
        Responded status bodyRead \<Rightarrow>
          if response_ok status then None
          else if \<not> bodyRead then None
          else if (status \<ge> 500 \<or> status = 404) \<and> retryCount < 3
               then Some (2 ^ retryCount * 1000)
               else None
      | Rejected \<Rightarrow>
          if retryCount < 3 then Some (2 ^ retryCount * 1000) else None)"

text \<open>
  One call of \<^verbatim>\<open>sendAnalyticsEvent\<close> followed through its retries. The outcomes are
  those of the requests the chain issues, in order; a request without an outcome is still
  pending. The result is the delays of the retries that were scheduled, and the state.
\<close>

fun submission ::
    "string \<Rightarrow> string \<Rightarrow> nat \<Rightarrow> string \<Rightarrow> fetch_outcome list \<Rightarrow> analytics
       \<Rightarrow> nat list \<times> analytics" where
  "submission event timerId retryCount path outcomes a =
     (case sendAnalyticsEvent event timerId retryCount path a of
        (False, a') \<Rightarrow> ([], a')
      | (True, a') \<Rightarrow>
          (case outcomes of
             [] \<Rightarrow> ([], a')
           | outcome # rest \<Rightarrow>
               (case scheduledRetry outcome retryCount of
                  None \<Rightarrow> ([], a')
                | Some delay \<Rightarrow>
                    (case submission event timerId (retryCount + 1) path rest a' of
                       (delays, a'') \<Rightarrow> (delay # delays, a'')))))"

declare submission.simps [simp del]

text \<open>
  Any number of calls of \<^verbatim>\<open>sendAnalyticsEvent\<close> in one session, top-level calls and
  re-entries from timers alike, each with its event, timer id, attempt counter and the
  path of the page at that moment.
\<close>

type_synonym invocation = "string \<times> string \<times> nat \<times> string"

definition invoke :: "invocation \<Rightarrow> analytics \<Rightarrow> analytics" where
  "invoke i a =
     (case i of (event, timerId, retryCount, path) \<Rightarrow>
        snd (sendAnalyticsEvent event timerId retryCount path a))"

definition session_calls :: "invocation list \<Rightarrow> analytics \<Rightarrow> analytics" where
  "session_calls calls a = fold invoke calls a"

text \<open>The impression requests issued for a timer id on a path.\<close>

definition impressions_of :: "string \<Rightarrow> string \<Rightarrow> analytics \<Rightarrow> request list" where
  "impressions_of timerId path a =
     filter (\<lambda>r. req_event r = ''impression'' \<and> req_timerId r = timerId \<and> req_path r = path)
       (requests a)"

text \<open>
  What the analytics code maintains while the session storage works: once an impression
  request for the timer id and path has been issued its mark is set, and there is at most
  one such request.
\<close>

definition deduplicated :: "string \<Rightarrow> string \<Rightarrow> analytics \<Rightarrow> bool" where
  "deduplicated timerId path a =
     (readable (session a) \<and> writable (session a) \<and>
      length (impressions_of timerId path a) \<le> 1 \<and>
      (impressions_of timerId path a = [] \<or> alreadyTracked timerId path a))"

subsection \<open>Sample sessions\<close>

definition new_session :: analytics where
  "new_session = \<lparr>session = empty_storage, requests = []\<rparr>"

definition blocked_session :: analytics where
  "blocked_session = \<lparr>session = blocked_storage, requests = []\<rparr>"

section \<open>Remaining time\<close>

lemma floor_js_rem:
  assumes "0 \<le> t" "0 < c" "0 < m"
  shows "\<lfloor>js_rem (real_of_int t / real_of_int c) (real_of_int m)\<rfloor> = (t div c) mod m"
proof -
  let ?x = "real_of_int t / real_of_int c"
  have nn: "0 \<le> ?x / real_of_int m" using assms by simp
  have fl: "\<lfloor>?x / real_of_int m\<rfloor> = (t div c) div m"
  proof -
    have "?x / real_of_int m = real_of_int t / real_of_int (c * m)" by simp
    then have "\<lfloor>?x / real_of_int m\<rfloor> = t div (c * m)"
      by (simp only: floor_divide_of_int_eq)
    also have "\<dots> = (t div c) div m"
      using assms by (simp add: zdiv_zmult2_eq)
    finally show ?thesis .
  qed
  have "js_rem ?x (real_of_int m) = ?x - real_of_int (m * ((t div c) div m))"
    using nn fl by (simp add: js_rem_def)
  then have "\<lfloor>js_rem ?x (real_of_int m)\<rfloor> = \<lfloor>?x\<rfloor> - m * ((t div c) div m)"
    by (simp only: floor_diff_of_int)
  also have "\<lfloor>?x\<rfloor> = t div c" by (simp only: floor_divide_of_int_eq)
  finally show ?thesis by (simp add: minus_mult_div_eq_mod mult.commute)
qed

lemma getTimeRemaining_positive:
  assumes "e \<noteq> 0" "0 < e - now"
  shows "getTimeRemaining (Some e) now =
           Some \<lparr>total_ms = e - now,
                 days = (e - now) div 86400000,
                 hours = (e - now) div 3600000 mod 24,
                 minutes = (e - now) div 60000 mod 60,
                 seconds = (e - now) div 1000 mod 60\<rparr>"
proof -
  let ?t = "e - now"
  have t0: "0 \<le> ?t" using assms by simp
  have d: "\<lfloor>real_of_int ?t / (1000 * 60 * 60 * 24)\<rfloor> = ?t div 86400000"
    using floor_divide_of_int_eq [of ?t 86400000, where ?'a = real] by simp
  have h: "\<lfloor>js_rem (real_of_int ?t / (1000 * 60 * 60)) 24\<rfloor> = ?t div 3600000 mod 24"
    using floor_js_rem [OF t0, of 3600000 24] by simp
  have m: "\<lfloor>js_rem (real_of_int ?t / (1000 * 60)) 60\<rfloor> = ?t div 60000 mod 60"
    using floor_js_rem [OF t0, of 60000 60] by simp
  have s: "\<lfloor>js_rem (real_of_int ?t / 1000) 60\<rfloor> = ?t div 1000 mod 60"
    using floor_js_rem [OF t0, of 1000 60] by simp
  have ne: "(e = 0) = False" "(e - now \<le> 0) = False" using assms by simp_all
  show ?thesis
    unfolding getTimeRemaining_def Let_def option.case ne if_False d h m s ..
qed

lemma units_reconstruct:
  fixes t :: int
  assumes "0 \<le> t"
  shows "t div 86400000 * 86400000 + t div 3600000 mod 24 * 3600000
           + t div 60000 mod 60 * 60000 + t div 1000 mod 60 * 1000
         = t div 1000 * 1000"
proof -
  define q where "q = t div 1000"
  have a: "t div 60000 = q div 60"
    unfolding q_def using zdiv_zmult2_eq [of 60 t 1000] by simp
  have b: "t div 3600000 = q div 60 div 60"
    unfolding q_def
    using zdiv_zmult2_eq [of 3600 t 1000] zdiv_zmult2_eq [of 60 "t div 1000" 60] by simp
  have c: "t div 86400000 = q div 60 div 60 div 24"
    unfolding b [symmetric] using zdiv_zmult2_eq [of 24 t 3600000] by simp
  define h where "h = q div 60 div 60"
  define m where "m = q div 60"
  define A B C D where "A = h div 24" and "B = h mod 24" and "C = m mod 60" and "D = q mod 60"
  have 1: "A * 24 + B = h" by (simp add: A_def B_def)
  have 2: "h * 60 + C = m" by (simp add: C_def h_def m_def)
  have 3: "m * 60 + D = q" by (simp add: D_def m_def)
  have "A * 86400000 + B * 3600000 + C * 60000 + D * 1000 = q * 1000"
    using 1 2 3 by linarith
  then show ?thesis
    unfolding a b c q_def [symmetric] A_def B_def C_def D_def h_def m_def .
qed

lemma whole_seconds_below: "(t::int) div 1000 * 1000 \<le> t"
  using div_mult_mod_eq [of t 1000] pos_mod_sign [of 1000 t] by linarith

lemma whole_seconds_above: "(t::int) < t div 1000 * 1000 + 1000"
  using div_mult_mod_eq [of t 1000] pos_mod_bound [of 1000 t] by linarith

text \<open>
  C1. Evaluated at wall-clock time \<open>now\<close>, \<^verbatim>\<open>getTimeRemaining\<close> returns null when
  no end-timestamp is stored and also when the stored end-timestamp is 0; for a stored
  end-timestamp other than 0 it returns the all-zero record when \<open>endTime - now \<le> 0\<close>, and
  otherwise the record with \<open>total = endTime - now\<close>, \<open>days = floor(total/86400000)\<close>,
  \<open>hours = floor(total/3600000) mod 24\<close>, \<open>minutes = floor(total/60000) mod 60\<close>,
  \<open>seconds = floor(total/1000) mod 60\<close>, whose units rebuild the total to within one second.
\<close>

theorem getTimeRemaining_cases:
  "getTimeRemaining None now = None \<and>
   getTimeRemaining (Some 0) now = None \<and>
   (e \<noteq> 0 \<and> e - now \<le> 0 \<longrightarrow>
      getTimeRemaining (Some e) now =
        Some \<lparr>total_ms = 0, days = 0, hours = 0, minutes = 0, seconds = 0\<rparr>) \<and>
   (e \<noteq> 0 \<and> 0 < e - now \<longrightarrow>
      (\<exists>r. getTimeRemaining (Some e) now = Some r \<and>
           total_ms r = e - now \<and>
           days r = total_ms r div 86400000 \<and>
           hours r = total_ms r div 3600000 mod 24 \<and>
           minutes r = total_ms r div 60000 mod 60 \<and>
           seconds r = total_ms r div 1000 mod 60 \<and>
           days r * 86400000 + hours r * 3600000 + minutes r * 60000 + seconds r * 1000
             \<le> total_ms r \<and>
           total_ms r
             < days r * 86400000 + hours r * 3600000 + minutes r * 60000 + seconds r * 1000
               + 1000))"
proof (intro conjI impI)
  show "getTimeRemaining None now = None"
    by (simp add: getTimeRemaining_def)
  show "getTimeRemaining (Some 0) now = None"
    by (simp add: getTimeRemaining_def)
next
  assume "e \<noteq> 0 \<and> e - now \<le> 0"
  then show "getTimeRemaining (Some e) now =
      Some \<lparr>total_ms = 0, days = 0, hours = 0, minutes = 0, seconds = 0\<rparr>"
    by (simp add: getTimeRemaining_def)
next
  assume pos: "e \<noteq> 0 \<and> 0 < e - now"
  let ?t = "e - now"
  let ?r = "\<lparr>total_ms = ?t, days = ?t div 86400000, hours = ?t div 3600000 mod 24,
             minutes = ?t div 60000 mod 60, seconds = ?t div 1000 mod 60\<rparr>"
  have g: "getTimeRemaining (Some e) now = Some ?r"
    using pos by (simp add: getTimeRemaining_positive)
  have t0: "0 \<le> ?t" using pos by simp
  have sel: "total_ms ?r = ?t" "days ?r = ?t div 86400000"
    "hours ?r = ?t div 3600000 mod 24" "minutes ?r = ?t div 60000 mod 60"
    "seconds ?r = ?t div 1000 mod 60"
    by (simp_all only: time_remaining.select_convs)
  have sum: "days ?r * 86400000 + hours ?r * 3600000 + minutes ?r * 60000 + seconds ?r * 1000
               = ?t div 1000 * 1000"
    unfolding sel by (rule units_reconstruct [OF t0])
  show "\<exists>r. getTimeRemaining (Some e) now = Some r \<and>
           total_ms r = e - now \<and>
           days r = total_ms r div 86400000 \<and>
           hours r = total_ms r div 3600000 mod 24 \<and>
           minutes r = total_ms r div 60000 mod 60 \<and>
           seconds r = total_ms r div 1000 mod 60 \<and>
           days r * 86400000 + hours r * 3600000 + minutes r * 60000 + seconds r * 1000
             \<le> total_ms r \<and>
           total_ms r
             < days r * 86400000 + hours r * 3600000 + minutes r * 60000 + seconds r * 1000
               + 1000"
  proof (intro exI [of _ ?r] conjI)
    show "getTimeRemaining (Some e) now = Some ?r" by (rule g)
    show "total_ms ?r = e - now" by (rule sel)
    show "days ?r = total_ms ?r div 86400000" unfolding sel ..
    show "hours ?r = total_ms ?r div 3600000 mod 24" unfolding sel ..
    show "minutes ?r = total_ms ?r div 60000 mod 60" unfolding sel ..
    show "seconds ?r = total_ms ?r div 1000 mod 60" unfolding sel ..
    show "days ?r * 86400000 + hours ?r * 3600000 + minutes ?r * 60000 + seconds ?r * 1000
            \<le> total_ms ?r"
      unfolding sum sel(1) by (rule whole_seconds_below)
    show "total_ms ?r
            < days ?r * 86400000 + hours ?r * 3600000 + minutes ?r * 60000 + seconds ?r * 1000
              + 1000"
      unfolding sum sel(1) by (rule whole_seconds_above)
  qed
qed

theorem getTimeRemaining_cases_witness:
  "getTimeRemaining (Some 1000) 2000
     = Some \<lparr>total_ms = 0, days = 0, hours = 0, minutes = 0, seconds = 0\<rparr> \<and>
   (\<exists>r. getTimeRemaining (Some 90061001) 0 = Some r \<and> total_ms r = 90061001 \<and>
        days r = 1 \<and> hours r = 1 \<and> minutes r = 1 \<and> seconds r = 1)"
proof -
  have "getTimeRemaining (Some 1000) 2000
          = Some \<lparr>total_ms = 0, days = 0, hours = 0, minutes = 0, seconds = 0\<rparr>"
    using getTimeRemaining_cases [where e = 1000 and now = 2000] by simp
  moreover obtain r where "getTimeRemaining (Some 90061001) 0 = Some r"
      and "total_ms r = 90061001" and "days r = total_ms r div 86400000"
      and "hours r = total_ms r div 3600000 mod 24"
      and "minutes r = total_ms r div 60000 mod 60"
      and "seconds r = total_ms r div 1000 mod 60"
    using getTimeRemaining_cases [where e = 90061001 and now = 0] by auto
  ultimately show ?thesis by simp
qed

text \<open>
  With the end-timestamp 0 stored (the epoch itself, which a fixed timer configured with
  that end date computes), the remaining time at any later moment is not positive, and
  the result is null rather than the all-zero record.
\<close>

theorem getTimeRemaining_epoch_counterexample:
  "(0::int) - 1000 \<le> 0 \<and>
   getTimeRemaining (Some 0) 1000
     \<noteq> Some \<lparr>total_ms = 0, days = 0, hours = 0, minutes = 0, seconds = 0\<rparr>"
  by (simp add: getTimeRemaining_def)

section \<open>Page patterns\<close>






section \<open>Throttling of the render loop\<close>

lemma successively_snoc:
  "successively P (xs @ [y]) = (successively P xs \<and> (xs = [] \<or> P (last xs) y))"
  by (induction xs rule: induct_list012) auto

lemma throttled_update: "throttled eng \<Longrightarrow> throttled (update t eng)"
  by (auto simp: throttled_def update_def successively_snoc)

lemma throttled_fold: "throttled eng \<Longrightarrow> throttled (fold update frames eng)"
  by (induction frames arbitrary: eng) (simp_all add: throttled_update)

lemma lastUpdateTime_fold:
  "displayUpdates eng = [] \<Longrightarrow> lastUpdateTime eng = 0 \<Longrightarrow>
   displayUpdates (fold update frames eng) = [] \<Longrightarrow>
   lastUpdateTime (fold update frames eng) = 0"
proof (induction frames arbitrary: eng)
  case Nil
  then show ?case by simp
next
  case (Cons t frames)
  have grows: "displayUpdates e \<noteq> [] \<Longrightarrow> displayUpdates (fold update fs e) \<noteq> []" for fs e
    by (induction fs arbitrary: e) (auto simp: update_def)
  show ?case
  proof (cases "t - lastUpdateTime eng \<ge> 1000")
    case True
    then have "displayUpdates (update t eng) \<noteq> []" by (simp add: update_def)
    from grows [OF this] Cons.prems(3) show ?thesis by simp
  next
    case False
    then have "update t eng = eng" by (simp add: update_def)
    with Cons show ?thesis by simp
  qed
qed

text \<open>
  C9. In the render loop started by \<^verbatim>\<open>startCountdown\<close> on a new engine, over any
  sequence of frames: any two consecutive calls of \<^verbatim>\<open>updateAllDisplays\<close> have frame
  timestamps at least 1000 apart, and the next frame calls it exactly when its timestamp
  minus the timestamp of the last frame that called it (0 before the first call) is at
  least 1000.
\<close>

theorem render_loop_throttle:
  "(let eng = startCountdown frames TimerEngine;
        lastFrame = (if displayUpdates eng = [] then 0 else last (displayUpdates eng))
    in successively (\<lambda>a b. 1000 \<le> b - a) (displayUpdates eng) \<and>
       displayUpdates (update timestamp eng) =
         (if 1000 \<le> timestamp - lastFrame then displayUpdates eng @ [timestamp]
          else displayUpdates eng))"
proof -
  define eng where "eng = startCountdown frames TimerEngine"
  have t0: "throttled TimerEngine"
    by (simp add: throttled_def TimerEngine_def)
  have th: "throttled eng"
    unfolding eng_def startCountdown_def using t0 by (rule throttled_fold)
  have z: "displayUpdates eng = [] \<Longrightarrow> lastUpdateTime eng = 0"
    unfolding eng_def startCountdown_def
    by (rule lastUpdateTime_fold) (simp_all add: TimerEngine_def)
  have lu: "lastUpdateTime eng = (if displayUpdates eng = [] then 0 else last (displayUpdates eng))"
    using th z by (auto simp: throttled_def)
  have "successively (\<lambda>a b. 1000 \<le> b - a) (displayUpdates eng)"
    using th by (simp add: throttled_def)
  moreover have "displayUpdates (update timestamp eng) =
         (if 1000 \<le> timestamp - (if displayUpdates eng = [] then 0 else last (displayUpdates eng))
          then displayUpdates eng @ [timestamp] else displayUpdates eng)"
    unfolding lu [symmetric] by (simp add: update_def)
  ultimately show ?thesis
    unfolding eng_def [symmetric] Let_def by simp
qed

text \<open>
  Five frames of a sixty-hertz display around the first and the second second: the
  displays are updated on the second and on the fourth of them.
\<close>

lemma render_loop_sample:
  "displayUpdates (startCountdown [983.4, 1000.1, 1016.8, 2000.1, 2016.8] TimerEngine)
     = [1000.1, 2000.1]"
  by (simp add: startCountdown_def update_def TimerEngine_def)

section \<open>Activity of the base handler\<close>

lemma isActive_None: "isActive None now = False"
  by (simp add: isActive_def getTimeRemaining_def)

lemma isActive_Some: "isActive (Some e) now = (e \<noteq> 0 \<and> now < e)"
proof (cases "e \<noteq> 0 \<and> 0 < e - now")
  case True
  then show ?thesis
    using getTimeRemaining_positive [of e now] by (simp add: isActive_def)
next
  case False
  then show ?thesis
    by (auto simp: isActive_def getTimeRemaining_def)
qed

section \<open>Recurring window\<close>

lemma parseTimeToMinutes_nonneg:
  "parseTimeToMinutes x = Inr m \<Longrightarrow> 0 \<le> m"
  by (auto simp: parseTimeToMinutes_def Number_of_digits_def
           split: option.splits if_splits list.splits)

lemma parse_2200: "parseTimeToMinutes (Some ''22:00'') = Inr 1320"
  by (simp add: parseTimeToMinutes_def Number_of_digits_def digit_of_def)

lemma parse_0600: "parseTimeToMinutes (Some ''06:00'') = Inr 360"
  by (simp add: parseTimeToMinutes_def Number_of_digits_def digit_of_def)

lemma recurring_overnight:
  assumes st: "parseTimeToMinutes (dailyStartTime t) = Inr s"
    and en: "parseTimeToMinutes (dailyEndTime t) = Inr e"
    and overnight: "e < s"
    and day: "clock_day c \<in> set (parseRecurringDays t)"
    and hr: "0 \<le> clock_hour c" "clock_hour c < 24"
    and mi: "0 \<le> clock_minute c" "clock_minute c < 60"
    and now: "0 \<le> clock_now c"
  shows "RecurringTimerHandler_isActive t c =
           (let cur = clock_hour c * 60 + clock_minute c;
                inWindow = (cur \<ge> s \<or> cur < e);
                minutesUntilEnd = (if cur \<ge> s then (24 * 60 - cur) + e else e - cur)
            in Inr (inWindow,
                    if inWindow then Some (clock_now c + minutesUntilEnd * 60000) else None))"
proof -
  define cur where "cur = clock_hour c * 60 + clock_minute c"
  have e0: "0 \<le> e" using en by (rule parseTimeToMinutes_nonneg)
  have cur_hi: "cur < 1440" and cur_lo: "0 \<le> cur"
    using hr mi by (simp_all add: cur_def)
  show ?thesis
  proof (cases "cur \<ge> s \<or> cur < e")
    case False
    then have w: "recurringWindow s e cur = (False, 0)"
      using overnight by (simp add: recurringWindow_def)
    have "RecurringTimerHandler_calculateEndTime t c = Inr None"
      using day st en w
      by (simp add: RecurringTimerHandler_calculateEndTime_def cur_def [symmetric])
    then show ?thesis
      using False
      by (simp add: RecurringTimerHandler_isActive_def isActive_def getTimeRemaining_def
            cur_def [symmetric])
  next
    case True
    define mue where "mue = (if cur \<ge> s then (24 * 60 - cur) + e else e - cur)"
    have w: "recurringWindow s e cur = (True, mue)"
      using True overnight by (simp add: recurringWindow_def mue_def)
    have mpos: "0 < mue"
      using True e0 cur_hi by (auto simp: mue_def)
    have c: "RecurringTimerHandler_calculateEndTime t c = Inr (Some (clock_now c + mue * 60000))"
      using day st en w
      by (simp add: RecurringTimerHandler_calculateEndTime_def cur_def [symmetric])
    have ne: "clock_now c + mue * 60000 \<noteq> 0" and po: "0 < clock_now c + mue * 60000 - clock_now c"
      using mpos now by simp_all
    have "isActive (Some (clock_now c + mue * 60000)) (clock_now c)"
      using ne po by (simp add: isActive_Some)
    then show ?thesis
      using True c
      by (simp add: RecurringTimerHandler_isActive_def cur_def [symmetric] mue_def)
  qed
qed

text \<open>
  C5. For a recurring timer whose end minute is less than its start minute, on an active
  day the handler is active exactly when the current minute of the day is at least the
  start or less than the end; the minutes until the end are \<open>(24*60 - current) + end\<close> in the
  first case and \<open>end - current\<close> in the second, and the end-timestamp is
  \<open>now + minutes * 60000\<close>. With start 22:00 and end 06:00: at 23:30 active with 390
  minutes, at 05:00 active with 60 minutes, at 12:00 inactive.
\<close>

theorem recurring_overnight_window:
  "(parseTimeToMinutes (dailyStartTime t) = Inr s \<and>
    parseTimeToMinutes (dailyEndTime t) = Inr e \<and> e < s \<and>
    clock_day c \<in> set (parseRecurringDays t) \<and>
    0 \<le> clock_hour c \<and> clock_hour c < 24 \<and> 0 \<le> clock_minute c \<and> clock_minute c < 60 \<and>
    0 \<le> clock_now c \<longrightarrow>
    (let cur = clock_hour c * 60 + clock_minute c;
         inWindow = (cur \<ge> s \<or> cur < e);
         minutesUntilEnd = (if cur \<ge> s then (24 * 60 - cur) + e else e - cur)
     in recurringWindow s e cur = (inWindow, if inWindow then minutesUntilEnd else 0) \<and>
        RecurringTimerHandler_isActive t c =
          Inr (inWindow,
               if inWindow then Some (clock_now c + minutesUntilEnd * 60000) else None))) \<and>
   parseTimeToMinutes (Some ''22:00'') = Inr 1320 \<and>
   parseTimeToMinutes (Some ''06:00'') = Inr 360 \<and>
   recurringWindow 1320 360 (23 * 60 + 30) = (True, 390) \<and>
   recurringWindow 1320 360 (5 * 60 + 0) = (True, 60) \<and>
   fst (recurringWindow 1320 360 (12 * 60 + 0)) = False"
proof (intro conjI impI)
  assume a: "parseTimeToMinutes (dailyStartTime t) = Inr s \<and>
    parseTimeToMinutes (dailyEndTime t) = Inr e \<and> e < s \<and>
    clock_day c \<in> set (parseRecurringDays t) \<and>
    0 \<le> clock_hour c \<and> clock_hour c < 24 \<and> 0 \<le> clock_minute c \<and> clock_minute c < 60 \<and>
    0 \<le> clock_now c"
  have w: "recurringWindow s e cur =
      (cur \<ge> s \<or> cur < e,
       if cur \<ge> s \<or> cur < e then (if cur \<ge> s then (24 * 60 - cur) + e else e - cur) else 0)"
    for cur
    using a by (simp add: recurringWindow_def)
  have "RecurringTimerHandler_isActive t c =
           (let cur = clock_hour c * 60 + clock_minute c;
                inWindow = (cur \<ge> s \<or> cur < e);
                minutesUntilEnd = (if cur \<ge> s then (24 * 60 - cur) + e else e - cur)
            in Inr (inWindow,
                    if inWindow then Some (clock_now c + minutesUntilEnd * 60000) else None))"
    using a by (intro recurring_overnight) simp_all
  with w show "(let cur = clock_hour c * 60 + clock_minute c;
         inWindow = (cur \<ge> s \<or> cur < e);
         minutesUntilEnd = (if cur \<ge> s then (24 * 60 - cur) + e else e - cur)
     in recurringWindow s e cur = (inWindow, if inWindow then minutesUntilEnd else 0) \<and>
        RecurringTimerHandler_isActive t c =
          Inr (inWindow,
               if inWindow then Some (clock_now c + minutesUntilEnd * 60000) else None))"
    by (simp add: Let_def)
next
  show "parseTimeToMinutes (Some ''22:00'') = Inr 1320" by (rule parse_2200)
  show "parseTimeToMinutes (Some ''06:00'') = Inr 360" by (rule parse_0600)
  show "recurringWindow 1320 360 (23 * 60 + 30) = (True, 390)"
    by (simp add: recurringWindow_def)
  show "recurringWindow 1320 360 (5 * 60 + 0) = (True, 60)"
    by (simp add: recurringWindow_def)
  show "fst (recurringWindow 1320 360 (12 * 60 + 0)) = False"
    by (simp add: recurringWindow_def)
qed

theorem recurring_overnight_window_witness:
  "RecurringTimerHandler_isActive overnight_timer
     \<lparr>clock_now = 1700000000000, clock_day = 2, clock_hour = 23, clock_minute = 30\<rparr>
     = Inr (True, Some (1700000000000 + 390 * 60000)) \<and>
   RecurringTimerHandler_isActive overnight_timer
     \<lparr>clock_now = 1700000000000, clock_day = 2, clock_hour = 5, clock_minute = 0\<rparr>
     = Inr (True, Some (1700000000000 + 60 * 60000)) \<and>
   RecurringTimerHandler_isActive overnight_timer
     \<lparr>clock_now = 1700000000000, clock_day = 2, clock_hour = 12, clock_minute = 0\<rparr>
     = Inr (False, None)"
proof -
  have cfg: "parseTimeToMinutes (dailyStartTime overnight_timer) = Inr 1320"
    "parseTimeToMinutes (dailyEndTime overnight_timer) = Inr 360"
    "(2::int) \<in> set (parseRecurringDays overnight_timer)"
    by (simp_all add: overnight_timer_def blank_timer_def parse_2200 parse_0600
          parseRecurringDays_def)
  have a: "RecurringTimerHandler_isActive overnight_timer
     \<lparr>clock_now = 1700000000000, clock_day = 2, clock_hour = 23, clock_minute = 30\<rparr>
     = Inr (True, Some (1700000000000 + 390 * 60000))"
    using cfg
      recurring_overnight_window [of overnight_timer 1320 360
        "\<lparr>clock_now = 1700000000000, clock_day = 2, clock_hour = 23, clock_minute = 30\<rparr>"]
    by (simp add: Let_def)
  have b: "RecurringTimerHandler_isActive overnight_timer
     \<lparr>clock_now = 1700000000000, clock_day = 2, clock_hour = 5, clock_minute = 0\<rparr>
     = Inr (True, Some (1700000000000 + 60 * 60000))"
    using cfg
      recurring_overnight_window [of overnight_timer 1320 360
        "\<lparr>clock_now = 1700000000000, clock_day = 2, clock_hour = 5, clock_minute = 0\<rparr>"]
    by (simp add: Let_def)
  have c: "RecurringTimerHandler_isActive overnight_timer
     \<lparr>clock_now = 1700000000000, clock_day = 2, clock_hour = 12, clock_minute = 0\<rparr>
     = Inr (False, None)"
    using cfg
      recurring_overnight_window [of overnight_timer 1320 360
        "\<lparr>clock_now = 1700000000000, clock_day = 2, clock_hour = 12, clock_minute = 0\<rparr>"]
    by (simp add: Let_def)
  from a b c show ?thesis by blast
qed

section \<open>Cart threshold\<close>






section \<open>Evergreen cycle\<close>

lemma setNewStartTime_cycle:
  "safeGetStorage (storageKey h) (snd (setNewStartTime h t st)) = None \<or>
   safeGetStorage (storageKey h) (snd (setNewStartTime h t st))
     = Some \<lparr>startTime = t, resetAt = None\<rparr> \<or>
   safeGetStorage (storageKey h) (snd (setNewStartTime h t st))
     = safeGetStorage (storageKey h) st"
  by (simp add: setNewStartTime_def safeSetStorage_def safeGetStorage_def)

lemma evergreen_fresh_start:
  assumes "evergreenDuration (eg_timer h) = Some d" "d \<noteq> 0"
    and "safeGetStorage (storageKey h) st = None"
  shows "EvergreenTimerHandler_calculateEndTime h t st
           = (Some (t + d * 60000), snd (setNewStartTime h t st))"
  using assms by (simp add: EvergreenTimerHandler_calculateEndTime_def setNewStartTime_def)

lemma evergreen_rollover:
  assumes "evergreenDuration (eg_timer h) = Some d" "d \<noteq> 0"
    and "evergreenResetDelay (eg_timer h) = None \<or> evergreenResetDelay (eg_timer h) = Some 0"
    and "safeGetStorage (storageKey h) st = Some \<lparr>startTime = s, resetAt = None\<rparr>"
    and "s + d * 60000 \<le> t"
  shows "EvergreenTimerHandler_calculateEndTime h t st
           = (Some (t + d * 60000), snd (setNewStartTime h t st))"
  using assms
  by (auto simp: EvergreenTimerHandler_calculateEndTime_def setNewStartTime_def)

text \<open>
  C4. For an evergreen handler with duration 10 minutes and no reset delay, after a cycle
  is started at \<open>t0\<close> (end-timestamp \<open>t0 + 600000\<close>) and the clock is advanced to exactly
  \<open>t0 + 600000\<close>, the call of \<^verbatim>\<open>isActive\<close> itself starts a fresh cycle, whose
  end-timestamp \<open>t0 + 1200000\<close> is strictly later than the first one, and returns true.
\<close>

theorem evergreen_round_trip:
  "evergreenDuration (eg_timer h) = Some 10 \<and>
   (evergreenResetDelay (eg_timer h) = None \<or> evergreenResetDelay (eg_timer h) = Some 0) \<and>
   safeGetStorage (storageKey h) st = None \<and> 0 \<le> t0 \<longrightarrow>
   (case EvergreenTimerHandler_initialize h t0 st of
      (h1, st1) \<Rightarrow>
        eg_endTime h1 = Some (t0 + 600000) \<and>
        (case EvergreenTimerHandler_isActive h1 (t0 + 600000) st1 of
           (active, h2, st2) \<Rightarrow>
             active = True \<and>
             eg_endTime h2 = Some (t0 + 1200000) \<and>
             t0 + 600000 < t0 + 1200000))"
proof (intro impI)
  assume a: "evergreenDuration (eg_timer h) = Some 10 \<and>
   (evergreenResetDelay (eg_timer h) = None \<or> evergreenResetDelay (eg_timer h) = Some 0) \<and>
   safeGetStorage (storageKey h) st = None \<and> 0 \<le> t0"
  define st1 where "st1 = snd (setNewStartTime h t0 st)"
  define h1 where "h1 = h\<lparr>eg_endTime := Some (t0 + 600000)\<rparr>"
  have c1: "EvergreenTimerHandler_calculateEndTime h t0 st = (Some (t0 + 600000), st1)"
    using a evergreen_fresh_start [of h 10 st t0] by (simp add: st1_def)
  then have i: "EvergreenTimerHandler_initialize h t0 st = (h1, st1)"
    by (simp add: EvergreenTimerHandler_initialize_def h1_def)
  have cfg: "evergreenDuration (eg_timer h1) = Some 10"
    "evergreenResetDelay (eg_timer h1) = None \<or> evergreenResetDelay (eg_timer h1) = Some 0"
    "storageKey h1 = storageKey h"
    using a by (simp_all add: h1_def)
  have stored: "safeGetStorage (storageKey h) st1 = None \<or>
      safeGetStorage (storageKey h) st1 = Some \<lparr>startTime = t0, resetAt = None\<rparr>"
    using setNewStartTime_cycle [of h t0 st] a by (auto simp: st1_def)
  have c2': "EvergreenTimerHandler_calculateEndTime h1 (t0 + 600000) st1
              = (Some (t0 + 600000 + 10 * 60000), snd (setNewStartTime h1 (t0 + 600000) st1))"
  proof (cases "safeGetStorage (storageKey h) st1")
    case None
    then show ?thesis
      using cfg by (intro evergreen_fresh_start) simp_all
  next
    case (Some cyc)
    with stored have "safeGetStorage (storageKey h1) st1 = Some \<lparr>startTime = t0, resetAt = None\<rparr>"
      using cfg by simp
    then show ?thesis
      using cfg by (intro evergreen_rollover [where s = t0]) simp_all
  qed
  have c2: "EvergreenTimerHandler_calculateEndTime h1 (t0 + 600000) st1
              = (Some (t0 + 1200000), snd (setNewStartTime h1 (t0 + 600000) st1))"
    unfolding c2' by simp
  have act: "isActive (Some (t0 + 1200000)) (t0 + 600000)"
    using a by (simp add: isActive_Some)
  have "EvergreenTimerHandler_isActive h1 (t0 + 600000) st1
          = (True, h1\<lparr>eg_endTime := Some (t0 + 1200000)\<rparr>,
             snd (setNewStartTime h1 (t0 + 600000) st1))"
    unfolding EvergreenTimerHandler_isActive_def c2 using act by simp
  with i show "(case EvergreenTimerHandler_initialize h t0 st of
      (h1, st1) \<Rightarrow>
        eg_endTime h1 = Some (t0 + 600000) \<and>
        (case EvergreenTimerHandler_isActive h1 (t0 + 600000) st1 of
           (active, h2, st2) \<Rightarrow>
             active = True \<and>
             eg_endTime h2 = Some (t0 + 1200000) \<and>
             t0 + 600000 < t0 + 1200000))"
    by (simp add: h1_def)
qed

lemma ten_minute_initialize:
  "EvergreenTimerHandler_initialize ten_minute_evergreen 1700000000000 empty_storage
     = (ten_minute_evergreen\<lparr>eg_endTime := Some 1700000600000\<rparr>,
        \<lparr>readable = True, writable = True,
         items = [''countdown_evergreen_t1_v_abc'' \<mapsto>
                    \<lparr>startTime = 1700000000000, resetAt = None\<rparr>]\<rparr>)"
  by (simp add: EvergreenTimerHandler_initialize_def EvergreenTimerHandler_calculateEndTime_def
        ten_minute_evergreen_def blank_timer_def empty_storage_def safeGetStorage_def
        safeSetStorage_def setNewStartTime_def)

theorem evergreen_round_trip_witness:
  "(case EvergreenTimerHandler_initialize ten_minute_evergreen 1700000000000 empty_storage of
      (h1, st1) \<Rightarrow>
        eg_endTime h1 = Some 1700000600000 \<and>
        (case EvergreenTimerHandler_isActive h1 1700000600000 st1 of
           (active, h2, st2) \<Rightarrow> active = True \<and> eg_endTime h2 = Some 1700001200000))"
proof -
  have cfg: "evergreenDuration (eg_timer ten_minute_evergreen) = Some 10 \<and>
     (evergreenResetDelay (eg_timer ten_minute_evergreen) = None \<or>
      evergreenResetDelay (eg_timer ten_minute_evergreen) = Some 0) \<and>
     safeGetStorage (storageKey ten_minute_evergreen)
       (empty_storage :: evergreen_cycle storage) = None \<and>
     (0::int) \<le> 1700000000000"
    by (simp add: ten_minute_evergreen_def blank_timer_def empty_storage_def safeGetStorage_def)
  show ?thesis
    using cfg evergreen_round_trip [of ten_minute_evergreen empty_storage 1700000000000]
    by (auto split: prod.splits)
qed

text \<open>
  With the cycle of the sample handler started at 1700000000000 and the clock exactly ten
  minutes later, \<^verbatim>\<open>isActive\<close> returns true, not false.
\<close>

theorem evergreen_isActive_counterexample:
  "fst (EvergreenTimerHandler_isActive
          (fst (EvergreenTimerHandler_initialize ten_minute_evergreen 1700000000000 empty_storage))
          (1700000000000 + 10 * 60 * 1000)
          (snd (EvergreenTimerHandler_initialize ten_minute_evergreen 1700000000000 empty_storage)))
     = True"
  unfolding ten_minute_initialize
  by (simp add: EvergreenTimerHandler_isActive_def EvergreenTimerHandler_calculateEndTime_def
        ten_minute_evergreen_def blank_timer_def safeGetStorage_def
        safeSetStorage_def setNewStartTime_def isActive_Some)

section \<open>Pruning of the closed timers\<close>

lemma update_fresh_key:
  "k \<notin> fst ` set al \<Longrightarrow> AList.update k v al = al @ [(k, v)]"
  by (induction al) auto

lemma fold_keep_young:
  assumes "distinct (map fst data)" "fst ` set acc \<inter> fst ` set data = {}"
  shows "fold (\<lambda>(ident, timestamp) acc.
                 if P timestamp then AList.update ident timestamp acc else acc) data acc
         = acc @ filter (\<lambda>(ident, timestamp). P timestamp) data"
  using assms
proof (induction data arbitrary: acc)
  case Nil
  then show ?case by simp
next
  case (Cons p data)
  obtain k v where p: "p = (k, v)" by (cases p)
  have fresh: "k \<notin> fst ` set acc" using Cons.prems(2) p by auto
  have d: "distinct (map fst data)" and kd: "k \<notin> fst ` set data"
    using Cons.prems(1) p by auto
  show ?case
  proof (cases "P v")
    case True
    have disj: "fst ` set (acc @ [(k, v)]) \<inter> fst ` set data = {}"
      using Cons.prems(2) kd p by auto
    show ?thesis
      using True p Cons.IH [OF d disj] by (simp add: update_fresh_key [OF fresh])
  next
    case False
    have disj: "fst ` set acc \<inter> fst ` set data = {}"
      using Cons.prems(2) by auto
    show ?thesis
      using False p Cons.IH [OF d disj] by simp
  qed
qed

lemma filter_same_length: "length (filter P xs) = length xs \<Longrightarrow> filter P xs = xs"
proof (induction xs)
  case Nil
  then show ?case by simp
next
  case (Cons x xs)
  have le: "length (filter P xs) \<le> length xs" by (rule length_filter_le)
  show ?case
  proof (cases "P x")
    case True
    with Cons show ?thesis by simp
  next
    case False
    with Cons.prems le show ?thesis by simp
  qed
qed

lemma getClosedTimers_result:
  assumes "distinct (map fst (closedData st))"
  shows "getClosedTimers now st =
           (map fst (filter (\<lambda>(ident, timestamp). now - timestamp < 86400000) (closedData st)),
            if length (filter (\<lambda>(ident, timestamp). now - timestamp < 86400000) (closedData st))
                 \<noteq> length (closedData st)
            then snd (safeSetStorage CLOSED
                   (filter (\<lambda>(ident, timestamp). now - timestamp < 86400000) (closedData st)) st)
            else st)"
proof -
  have "fold (\<lambda>(ident, timestamp) acc.
                 if now - timestamp < 86400000 then AList.update ident timestamp acc else acc)
          (closedData st) []
        = [] @ filter (\<lambda>(ident, timestamp). now - timestamp < 86400000) (closedData st)"
    using assms by (intro fold_keep_young) simp_all
  then show ?thesis
    by (simp add: getClosedTimers_def Let_def)
qed

lemma closedData_after_get:
  assumes "readable st" "writable st" "distinct (map fst (closedData st))"
  shows "closedData (snd (getClosedTimers now st))
           = filter (\<lambda>(ident, timestamp). now - timestamp < 86400000) (closedData st)"
proof -
  let ?f = "filter (\<lambda>(ident, timestamp). now - timestamp < 86400000) (closedData st)"
  show ?thesis
  proof (cases "length ?f = length (closedData st)")
    case True
    then have "?f = closedData st" by (rule filter_same_length)
    with True show ?thesis
      using getClosedTimers_result [OF assms(3), of now] by simp
  next
    case False
    then show ?thesis
      using getClosedTimers_result [OF assms(3), of now] assms(1,2)
      by (simp add: closedData_def safeSetStorage_def safeGetStorage_def)
  qed
qed

lemma closedData_after_save:
  assumes "readable st" "writable st"
  shows "closedData (saveClosedTimer k t st) = AList.update k t (closedData st)"
    and "readable (saveClosedTimer k t st)" and "writable (saveClosedTimer k t st)"
  using assms
  by (simp_all add: saveClosedTimer_def closedData_def safeSetStorage_def safeGetStorage_def)

lemma entry_of_updated:
  assumes "distinct (map fst al)"
  shows "((k, ts) \<in> set (AList.update k v al)) = (ts = v)"
proof -
  have d: "distinct (map fst (AList.update k v al))"
    using assms by (rule distinct_update)
  have "map_of (AList.update k v al) k = Some v"
    by (simp add: update_conv')
  with d show ?thesis
    by (metis map_of_eq_Some_iff option.inject)
qed

text \<open>
  C7. While \<^verbatim>\<open>localStorage\<close> can be read and written, every read of the closed-timer
  set prunes it: \<^verbatim>\<open>getClosedTimers\<close> returns exactly the ids whose close timestamp is
  less than 24 hours before the current time, afterwards the store holds exactly those
  entries, and bootstrap hides, and does not register, a timer whose id is returned. So a
  timer closed at time \<open>tc\<close> is hidden by a bootstrap run before \<open>tc + 24h\<close>, and from
  \<open>tc + 24h\<close> on it is judged by the page targeting alone.
\<close>

theorem closed_timers_pruned:
  "readable st \<and> writable st \<and> distinct (map fst (closedData st)) \<longrightarrow>
     (case getClosedTimers now st of
        (ids, st') \<Rightarrow>
          set ids = {ident. \<exists>ts. (ident, ts) \<in> set (closedData st) \<and> now - ts < 86400000} \<and>
          closedData st' = filter (\<lambda>(ident, ts). now - ts < 86400000) (closedData st) \<and>
          (timer_id t \<in> set ids \<and> timer_id t \<noteq> [] \<longrightarrow>
             initTimers_element ids path t = HiddenClosed)) \<and>
     (timer_id t \<noteq> [] \<longrightarrow>
        (now < tc + 86400000 \<longrightarrow>
           fst (initTimers now path [t] (saveClosedTimer (timer_id t) tc st)) = [HiddenClosed]) \<and>
        (tc + 86400000 \<le> now \<longrightarrow>
           fst (initTimers now path [t] (saveClosedTimer (timer_id t) tc st))
             = [if shouldShowOnPage t path then Registered else HiddenByPage]))"
proof (intro impI)
  assume a: "readable st \<and> writable st \<and> distinct (map fst (closedData st))"
  let ?young = "\<lambda>(ident :: string, ts). now - ts < (86400000 :: int)"
  have dist: "distinct (map fst (closedData st))" using a by simp
  have g: "fst (getClosedTimers now st) = map fst (filter ?young (closedData st))"
    using getClosedTimers_result [OF dist, of now] by simp
  have ids: "set (fst (getClosedTimers now st))
               = {ident. \<exists>ts. (ident, ts) \<in> set (closedData st) \<and> now - ts < 86400000}"
    unfolding g by force
  have store: "closedData (snd (getClosedTimers now st)) = filter ?young (closedData st)"
    using a by (intro closedData_after_get) simp_all
  have hide: "timer_id t \<in> set ids \<and> timer_id t \<noteq> [] \<longrightarrow>
                initTimers_element ids path t = HiddenClosed" for ids
    by (simp add: initTimers_element_def)
  have part1: "(case getClosedTimers now st of
        (ids, st') \<Rightarrow>
          set ids = {ident. \<exists>ts. (ident, ts) \<in> set (closedData st) \<and> now - ts < 86400000} \<and>
          closedData st' = filter (\<lambda>(ident, ts). now - ts < 86400000) (closedData st) \<and>
          (timer_id t \<in> set ids \<and> timer_id t \<noteq> [] \<longrightarrow>
             initTimers_element ids path t = HiddenClosed))"
    using ids store hide by (simp add: case_prod_unfold)
  have part2: "timer_id t \<noteq> [] \<longrightarrow>
        (now < tc + 86400000 \<longrightarrow>
           fst (initTimers now path [t] (saveClosedTimer (timer_id t) tc st)) = [HiddenClosed]) \<and>
        (tc + 86400000 \<le> now \<longrightarrow>
           fst (initTimers now path [t] (saveClosedTimer (timer_id t) tc st))
             = [if shouldShowOnPage t path then Registered else HiddenByPage])"
  proof
    assume ne: "timer_id t \<noteq> []"
    define st1 where "st1 = saveClosedTimer (timer_id t) tc st"
    have cd: "closedData st1 = AList.update (timer_id t) tc (closedData st)"
      unfolding st1_def using a by (intro closedData_after_save) simp_all
    have d1: "distinct (map fst (closedData st1))"
      unfolding cd using dist by (rule distinct_update)
    have g1: "fst (getClosedTimers now st1) = map fst (filter ?young (closedData st1))"
      using getClosedTimers_result [OF d1, of now] by simp
    have mem: "(timer_id t \<in> set (fst (getClosedTimers now st1))) = (now - tc < 86400000)"
    proof -
      have "(timer_id t \<in> set (fst (getClosedTimers now st1)))
              = (\<exists>ts. (timer_id t, ts) \<in> set (closedData st1) \<and> now - ts < 86400000)"
        unfolding g1 by force
      also have "\<dots> = (now - tc < 86400000)"
        unfolding cd using entry_of_updated [OF dist, of "timer_id t" _ tc] by auto
      finally show ?thesis .
    qed
    have run: "fst (initTimers now path [t] st1)
                 = [initTimers_element (fst (getClosedTimers now st1)) path t]"
      by (simp add: initTimers_def case_prod_unfold)
    show "(now < tc + 86400000 \<longrightarrow>
           fst (initTimers now path [t] (saveClosedTimer (timer_id t) tc st)) = [HiddenClosed]) \<and>
        (tc + 86400000 \<le> now \<longrightarrow>
           fst (initTimers now path [t] (saveClosedTimer (timer_id t) tc st))
             = [if shouldShowOnPage t path then Registered else HiddenByPage])"
      unfolding st1_def [symmetric] run
      using ne mem by (auto simp: initTimers_element_def)
  qed
  from part1 part2 show "(case getClosedTimers now st of
        (ids, st') \<Rightarrow>
          set ids = {ident. \<exists>ts. (ident, ts) \<in> set (closedData st) \<and> now - ts < 86400000} \<and>
          closedData st' = filter (\<lambda>(ident, ts). now - ts < 86400000) (closedData st) \<and>
          (timer_id t \<in> set ids \<and> timer_id t \<noteq> [] \<longrightarrow>
             initTimers_element ids path t = HiddenClosed)) \<and>
     (timer_id t \<noteq> [] \<longrightarrow>
        (now < tc + 86400000 \<longrightarrow>
           fst (initTimers now path [t] (saveClosedTimer (timer_id t) tc st)) = [HiddenClosed]) \<and>
        (tc + 86400000 \<le> now \<longrightarrow>
           fst (initTimers now path [t] (saveClosedTimer (timer_id t) tc st))
             = [if shouldShowOnPage t path then Registered else HiddenByPage]))"
    by (rule conjI)
qed

lemma closedData_two_closed:
  "closedData two_closed = [(''t1'', 1700000000000), (''t2'', 1600000000000)]"
  by (simp add: closedData_def two_closed_def safeGetStorage_def)

lemma blank_timer_shown: "timer_id blank_timer = ''t1''" "shouldShowOnPage blank_timer ''/''"
  by (simp_all add: blank_timer_def shouldShowOnPage_def)

theorem closed_timers_pruned_witness:
  "(case getClosedTimers 1700003600000 two_closed of
      (ids, st') \<Rightarrow>
        ''t1'' \<in> set ids \<and> ''t2'' \<notin> set ids \<and>
        closedData st' = [(''t1'', 1700000000000)] \<and>
        initTimers_element ids ''/'' blank_timer = HiddenClosed) \<and>
   fst (initTimers (1700000000000 + 86399999) ''/'' [blank_timer]
          (saveClosedTimer ''t1'' 1700000000000 two_closed)) = [HiddenClosed] \<and>
   fst (initTimers (1700000000000 + 86400000) ''/'' [blank_timer]
          (saveClosedTimer ''t1'' 1700000000000 two_closed)) = [Registered]"
proof -
  have ok: "readable two_closed \<and> writable two_closed \<and>
            distinct (map fst (closedData two_closed))"
    by (simp add: closedData_two_closed) (simp add: two_closed_def)
  obtain ids st' where g: "getClosedTimers 1700003600000 two_closed = (ids, st')"
    by (cases "getClosedTimers 1700003600000 two_closed")
  have a: "set ids = {ident. \<exists>ts. (ident, ts) \<in> set (closedData two_closed) \<and>
                        1700003600000 - ts < 86400000}"
    and b: "closedData st' = filter (\<lambda>(ident, ts). 1700003600000 - ts < 86400000)
                               (closedData two_closed)"
    and c: "timer_id blank_timer \<in> set ids \<and> timer_id blank_timer \<noteq> [] \<longrightarrow>
              initTimers_element ids ''/'' blank_timer = HiddenClosed"
    using ok g
      closed_timers_pruned [of two_closed 1700003600000 blank_timer "''/''" 1700000000000]
    by simp_all
  have m1: "''t1'' \<in> set ids" and m2: "''t2'' \<notin> set ids"
    unfolding a closedData_two_closed by simp_all
  have first: "(case getClosedTimers 1700003600000 two_closed of
      (ids, st') \<Rightarrow>
        ''t1'' \<in> set ids \<and> ''t2'' \<notin> set ids \<and>
        closedData st' = [(''t1'', 1700000000000)] \<and>
        initTimers_element ids ''/'' blank_timer = HiddenClosed)"
    using g m1 m2 b c by (simp add: closedData_two_closed blank_timer_shown)
  have before: "fst (initTimers (1700000000000 + 86399999) ''/'' [blank_timer]
          (saveClosedTimer ''t1'' 1700000000000 two_closed)) = [HiddenClosed]"
    using ok
      closed_timers_pruned [of two_closed "1700000000000 + 86399999" blank_timer "''/''"
        1700000000000]
    by (simp add: blank_timer_shown)
  have after: "fst (initTimers (1700000000000 + 86400000) ''/'' [blank_timer]
          (saveClosedTimer ''t1'' 1700000000000 two_closed)) = [Registered]"
    using ok
      closed_timers_pruned [of two_closed "1700000000000 + 86400000" blank_timer "''/''"
        1700000000000]
    by (simp add: blank_timer_shown)
  from first before after show ?thesis by blast
qed

text \<open>
  When the storage refuses access, closing a timer leaves no trace: bootstrap one second
  after the close registers the timer again.
\<close>

theorem closed_timer_not_suppressed_counterexample:
  "fst (initTimers (1700000000000 + 1000) ''/'' [blank_timer]
          (saveClosedTimer ''t1'' 1700000000000 blocked_storage)) = [Registered] \<and>
   (1700000000000 + 1000 :: int) < 1700000000000 + 86400000"
  by (simp add: initTimers_def getClosedTimers_def saveClosedTimer_def closedData_def
        safeGetStorage_def safeSetStorage_def blocked_storage_def initTimers_element_def
        blank_timer_shown)

section \<open>Analytics: retries\<close>



lemma send_other_event:
  assumes "timerId \<noteq> []" "event \<noteq> ''impression''"
  shows "sendAnalyticsEvent event timerId retryCount path a =
           (True, fetch \<lparr>req_event = event, req_timerId = timerId, req_path = path,
                         req_retryCount = retryCount\<rparr> a)"
  using assms by (simp add: sendAnalyticsEvent_def)













section \<open>Analytics: impression marks\<close>

lemma send_impression_tracked:
  assumes "alreadyTracked timerId path a"
  shows "sendAnalyticsEvent ''impression'' timerId retryCount path a = (False, a)"
  using assms by (simp add: sendAnalyticsEvent_def)

lemma send_impression_fresh:
  assumes "timerId \<noteq> []" "\<not> alreadyTracked timerId path a"
  shows "sendAnalyticsEvent ''impression'' timerId retryCount path a =
           (True,
            fetch \<lparr>req_event = ''impression'', req_timerId = timerId, req_path = path,
                    req_retryCount = retryCount\<rparr>
              (a\<lparr>session :=
                   snd (safeSetSession (sessionKey timerId path) True (session a))\<rparr>))"
  using assms by (simp add: sendAnalyticsEvent_def)

lemma tracked_after_mark:
  assumes "readable (session a)" "writable (session a)"
  shows "alreadyTracked timerId path
           (fetch r (a\<lparr>session :=
                          snd (safeSetSession (sessionKey timerId path) True (session a))\<rparr>))"
  using assms by (simp add: alreadyTracked_def fetch_def safeSetSession_def safeGetSession_def)

lemma submission_tracked:
  assumes "alreadyTracked timerId path a"
  shows "submission ''impression'' timerId retryCount path outcomes a = ([], a)"
  by (subst submission.simps) (simp add: send_impression_tracked [OF assms])

lemma submission_fresh:
  assumes rw: "readable (session a)" "writable (session a)"
    and ne: "timerId \<noteq> []" and fresh: "\<not> alreadyTracked timerId path a"
  shows "snd (submission ''impression'' timerId retryCount path outcomes a) =
           fetch \<lparr>req_event = ''impression'', req_timerId = timerId, req_path = path,
                   req_retryCount = retryCount\<rparr>
             (a\<lparr>session :=
                  snd (safeSetSession (sessionKey timerId path) True (session a))\<rparr>)"
proof -
  let ?a' = "fetch \<lparr>req_event = ''impression'', req_timerId = timerId, req_path = path,
                   req_retryCount = retryCount\<rparr>
             (a\<lparr>session :=
                  snd (safeSetSession (sessionKey timerId path) True (session a))\<rparr>)"
  have tr: "alreadyTracked timerId path ?a'"
    using rw by (rule tracked_after_mark)
  have re: "submission ''impression'' timerId (Suc retryCount) path rest ?a' = ([], ?a')" for rest
    using tr by (rule submission_tracked)
  show ?thesis
    by (subst submission.simps)
       (simp add: send_impression_fresh [OF ne fresh] re split: list.splits option.splits)
qed

text \<open>
  C3. While \<^verbatim>\<open>sessionStorage\<close> can be read and written, for a non-empty timer id and
  a path: a call for an impression whose mark is set returns without a request and leaves
  the state as it is; otherwise the mark is written and then the request is issued,
  whatever the outcome of the request will be. Two top-level calls for the same timer id
  and path, each followed through its retries, issue exactly one request.
\<close>

theorem impression_dedup:
  "readable (session a) \<and> writable (session a) \<and> timerId \<noteq> [] \<longrightarrow>
     (alreadyTracked timerId path a \<longrightarrow>
        sendAnalyticsEvent ''impression'' timerId retryCount path a = (False, a)) \<and>
     (\<not> alreadyTracked timerId path a \<longrightarrow>
        (\<exists>a1. requests a1 = requests a \<and> alreadyTracked timerId path a1 \<and>
              sendAnalyticsEvent ''impression'' timerId retryCount path a =
                (True, fetch \<lparr>req_event = ''impression'', req_timerId = timerId,
                               req_path = path, req_retryCount = retryCount\<rparr> a1)) \<and>
        alreadyTracked timerId path
          (snd (submission ''impression'' timerId 0 path outcomes a)) \<and>
        requests (snd (submission ''impression'' timerId 0 path outcomes'
                         (snd (submission ''impression'' timerId 0 path outcomes a))))
          = requests a @ [\<lparr>req_event = ''impression'', req_timerId = timerId,
                           req_path = path, req_retryCount = 0\<rparr>])"
proof (intro impI conjI)
  assume "alreadyTracked timerId path a"
  then show "sendAnalyticsEvent ''impression'' timerId retryCount path a = (False, a)"
    by (rule send_impression_tracked)
next
  assume rw: "readable (session a) \<and> writable (session a) \<and> timerId \<noteq> []"
    and fresh: "\<not> alreadyTracked timerId path a"
  let ?a1 = "a\<lparr>session := snd (safeSetSession (sessionKey timerId path) True (session a))\<rparr>"
  have m: "alreadyTracked timerId path ?a1"
    using rw by (simp add: alreadyTracked_def safeSetSession_def safeGetSession_def)
  have s: "sendAnalyticsEvent ''impression'' timerId retryCount path a =
             (True, fetch \<lparr>req_event = ''impression'', req_timerId = timerId,
                            req_path = path, req_retryCount = retryCount\<rparr> ?a1)"
    using rw fresh by (intro send_impression_fresh) simp_all
  from m s show "\<exists>a1. requests a1 = requests a \<and> alreadyTracked timerId path a1 \<and>
              sendAnalyticsEvent ''impression'' timerId retryCount path a =
                (True, fetch \<lparr>req_event = ''impression'', req_timerId = timerId,
                               req_path = path, req_retryCount = retryCount\<rparr> a1)"
    by (intro exI [of _ ?a1]) simp
  have first: "snd (submission ''impression'' timerId 0 path outcomes a) =
      fetch \<lparr>req_event = ''impression'', req_timerId = timerId, req_path = path,
              req_retryCount = 0\<rparr> ?a1"
    using rw fresh by (intro submission_fresh) simp_all
  show tr: "alreadyTracked timerId path (snd (submission ''impression'' timerId 0 path outcomes a))"
    unfolding first using rw by (intro tracked_after_mark) simp_all
  show "requests (snd (submission ''impression'' timerId 0 path outcomes'
                         (snd (submission ''impression'' timerId 0 path outcomes a))))
          = requests a @ [\<lparr>req_event = ''impression'', req_timerId = timerId,
                           req_path = path, req_retryCount = 0\<rparr>]"
    unfolding submission_tracked [OF tr] unfolding first by (simp add: fetch_def)
qed

lemma new_session_untracked:
  "readable (session new_session) \<and> writable (session new_session) \<and> ''t1'' \<noteq> []"
  "\<not> alreadyTracked ''t1'' ''/'' new_session"
  by (simp_all add: new_session_def empty_storage_def alreadyTracked_def safeGetSession_def)

theorem impression_dedup_witness:
  "requests (snd (submission ''impression'' ''t1'' 0 ''/'' [Responded 200 True]
                    (snd (submission ''impression'' ''t1'' 0 ''/'' [Responded 503 True]
                            new_session))))
     = [\<lparr>req_event = ''impression'', req_timerId = ''t1'', req_path = ''/'',
         req_retryCount = 0\<rparr>] \<and>
   sendAnalyticsEvent ''impression'' ''t1'' 0 ''/''
       (snd (sendAnalyticsEvent ''impression'' ''t1'' 0 ''/'' new_session))
     = (False, snd (sendAnalyticsEvent ''impression'' ''t1'' 0 ''/'' new_session))"
proof -
  let ?a = "snd (sendAnalyticsEvent ''impression'' ''t1'' 0 ''/'' new_session)"
  have one: "requests (snd (submission ''impression'' ''t1'' 0 ''/'' [Responded 200 True]
                    (snd (submission ''impression'' ''t1'' 0 ''/'' [Responded 503 True]
                            new_session))))
     = [\<lparr>req_event = ''impression'', req_timerId = ''t1'', req_path = ''/'',
         req_retryCount = 0\<rparr>]"
    using new_session_untracked
      impression_dedup [of new_session "''t1''" "''/''" 0 "[Responded 503 True]"
        "[Responded 200 True]"]
    by (simp add: new_session_def)
  have marked: "readable (session ?a) \<and> writable (session ?a) \<and> ''t1'' \<noteq> []"
      "alreadyTracked ''t1'' ''/'' ?a"
    by (simp_all add: sendAnalyticsEvent_def new_session_def empty_storage_def
          alreadyTracked_def safeGetSession_def safeSetSession_def fetch_def sessionKey_def)
  have two: "sendAnalyticsEvent ''impression'' ''t1'' 0 ''/'' ?a = (False, ?a)"
    using marked impression_dedup [of ?a "''t1''" "''/''" 0] by blast
  from one two show ?thesis by blast
qed

text \<open>
  With the session storage blocked, two top-level calls for the same timer id on the same
  path issue two requests.
\<close>

theorem impression_dedup_counterexample:
  "requests (snd (sendAnalyticsEvent ''impression'' ''t1'' 0 ''/''
                    (snd (sendAnalyticsEvent ''impression'' ''t1'' 0 ''/'' blocked_session))))
     = [\<lparr>req_event = ''impression'', req_timerId = ''t1'', req_path = ''/'',
         req_retryCount = 0\<rparr>,
        \<lparr>req_event = ''impression'', req_timerId = ''t1'', req_path = ''/'',
         req_retryCount = 0\<rparr>]"
  by (simp add: sendAnalyticsEvent_def blocked_session_def blocked_storage_def
        alreadyTracked_def safeGetSession_def safeSetSession_def fetch_def)

section \<open>Analytics: one impression request per timer and path\<close>

lemma impressions_of_fetch:
  "impressions_of timerId path (fetch r a) =
     (if req_event r = ''impression'' \<and> req_timerId r = timerId \<and> req_path r = path
      then impressions_of timerId path a @ [r] else impressions_of timerId path a)"
  by (simp add: impressions_of_def fetch_def)

lemma impressions_of_session [simp]:
  "impressions_of timerId path (a\<lparr>session := s\<rparr>) = impressions_of timerId path a"
  by (simp add: impressions_of_def)

lemma tracked_fetch: "alreadyTracked timerId path (fetch r a) = alreadyTracked timerId path a"
  by (simp add: alreadyTracked_def fetch_def)

lemma tracked_kept:
  assumes "readable (session a)" "alreadyTracked timerId path a"
  shows "alreadyTracked timerId path
           (fetch r (a\<lparr>session := snd (safeSetSession k True (session a))\<rparr>))"
  using assms
  by (auto simp: alreadyTracked_def fetch_def safeSetSession_def safeGetSession_def)

lemma send_keeps_access:
  "readable (session (snd (sendAnalyticsEvent event t rc p a))) = readable (session a)"
  "writable (session (snd (sendAnalyticsEvent event t rc p a))) = writable (session a)"
  by (simp_all add: sendAnalyticsEvent_def fetch_def safeSetSession_def Let_def)

lemma send_keeps_tracked:
  assumes "readable (session a)" "alreadyTracked timerId path a"
  shows "alreadyTracked timerId path (snd (sendAnalyticsEvent event t rc p a))"
proof (cases "t \<noteq> [] \<and> event = ''impression'' \<and> \<not> alreadyTracked t p a")
  case True
  then have "snd (sendAnalyticsEvent event t rc p a) =
      fetch \<lparr>req_event = ''impression'', req_timerId = t, req_path = p, req_retryCount = rc\<rparr>
        (a\<lparr>session := snd (safeSetSession (sessionKey t p) True (session a))\<rparr>)"
    by (simp add: send_impression_fresh)
  then show ?thesis
    using assms by (simp add: tracked_kept)
next
  case False
  then consider "t = [] \<or> (event = ''impression'' \<and> alreadyTracked t p a)"
    | "t \<noteq> []" "event \<noteq> ''impression''"
    by blast
  then show ?thesis
  proof cases
    case 1
    then have "snd (sendAnalyticsEvent event t rc p a) = a"
      by (auto simp: sendAnalyticsEvent_def)
    with assms show ?thesis by simp
  next
    case 2
    then show ?thesis
      using assms by (simp add: send_other_event tracked_fetch)
  qed
qed

lemma send_keeps_deduplicated:
  assumes "deduplicated timerId path a"
  shows "deduplicated timerId path (snd (sendAnalyticsEvent event t rc p a))"
proof -
  have rw: "readable (session a)" "writable (session a)"
    and le: "length (impressions_of timerId path a) \<le> 1"
    and tr: "impressions_of timerId path a = [] \<or> alreadyTracked timerId path a"
    using assms by (simp_all add: deduplicated_def)
  let ?a' = "snd (sendAnalyticsEvent event t rc p a)"
  have acc: "readable (session ?a')" "writable (session ?a')"
    using rw by (simp_all add: send_keeps_access)
  consider (none) "t = [] \<or> (event = ''impression'' \<and> alreadyTracked t p a)"
    | (other) "t \<noteq> []" "event \<noteq> ''impression''"
    | (fresh) "t \<noteq> []" "event = ''impression''" "\<not> alreadyTracked t p a"
    by blast
  then show ?thesis
  proof cases
    case none
    then have "?a' = a" by (auto simp: sendAnalyticsEvent_def)
    with assms show ?thesis by simp
  next
    case other
    then have a': "?a' = fetch \<lparr>req_event = event, req_timerId = t, req_path = p,
                                 req_retryCount = rc\<rparr> a"
      by (simp add: send_other_event)
    have same: "impressions_of timerId path ?a' = impressions_of timerId path a"
      unfolding a' using other by (simp add: impressions_of_fetch)
    have "impressions_of timerId path a = [] \<or> alreadyTracked timerId path ?a'"
      using tr rw by (auto simp: send_keeps_tracked)
    with same le acc show ?thesis by (simp add: deduplicated_def)
  next
    case fresh
    let ?r = "\<lparr>req_event = ''impression'', req_timerId = t, req_path = p, req_retryCount = rc\<rparr>"
    have a': "?a' = fetch ?r
                (a\<lparr>session := snd (safeSetSession (sessionKey t p) True (session a))\<rparr>)"
      using fresh by (simp add: send_impression_fresh)
    show ?thesis
    proof (cases "t = timerId \<and> p = path")
      case True
      with fresh tr have empty: "impressions_of timerId path a = []" by auto
      have one: "impressions_of timerId path ?a' = [?r]"
        unfolding a' using True empty by (simp add: impressions_of_fetch)
      have "alreadyTracked timerId path ?a'"
        unfolding a' using True rw by (simp add: tracked_after_mark)
      with one acc show ?thesis by (simp add: deduplicated_def)
    next
      case False
      have same: "impressions_of timerId path ?a' = impressions_of timerId path a"
        unfolding a' using False by (auto simp: impressions_of_fetch)
      have "impressions_of timerId path a = [] \<or> alreadyTracked timerId path ?a'"
        using tr rw by (auto simp: send_keeps_tracked)
      with same le acc show ?thesis by (simp add: deduplicated_def)
    qed
  qed
qed

lemma calls_keep_deduplicated:
  "deduplicated timerId path a \<Longrightarrow> deduplicated timerId path (session_calls calls a)"
  unfolding session_calls_def
proof (induction calls arbitrary: a)
  case Nil
  then show ?case by simp
next
  case (Cons c calls)
  obtain event t rc p where c: "c = (event, t, rc, p)" by (cases c)
  have "deduplicated timerId path (invoke c a)"
    unfolding c invoke_def using Cons.prems by (simp add: send_keeps_deduplicated)
  then show ?case using Cons.IH by simp
qed

lemma calls_keep_tracked:
  "readable (session a) \<Longrightarrow> alreadyTracked timerId path a \<Longrightarrow>
   alreadyTracked timerId path (session_calls calls a)"
  unfolding session_calls_def
proof (induction calls arbitrary: a)
  case Nil
  then show ?case by simp
next
  case (Cons c calls)
  obtain event t rc p where c: "c = (event, t, rc, p)" by (cases c)
  have "alreadyTracked timerId path (invoke c a)" "readable (session (invoke c a))"
    unfolding c invoke_def using Cons.prems
    by (simp_all add: send_keeps_tracked send_keeps_access)
  then show ?case using Cons.IH by simp
qed

lemma submission_keeps_deduplicated:
  "deduplicated timerId path a \<Longrightarrow>
   deduplicated timerId path (snd (submission event t rc p outcomes a))"
proof (induction outcomes arbitrary: rc a)
  case Nil
  have "snd (submission event t rc p [] a) = snd (sendAnalyticsEvent event t rc p a)"
    by (subst submission.simps) (simp split: prod.splits bool.splits)
  then show ?case using Nil by (simp add: send_keeps_deduplicated)
next
  case (Cons outcome rest)
  let ?a' = "snd (sendAnalyticsEvent event t rc p a)"
  have d: "deduplicated timerId path ?a'"
    using Cons.prems by (rule send_keeps_deduplicated)
  have "snd (submission event t rc p (outcome # rest) a) = ?a' \<or>
        snd (submission event t rc p (outcome # rest) a)
          = snd (submission event t (rc + 1) p rest ?a')"
    by (subst submission.simps, subst (2) submission.simps)
       (simp split: prod.splits bool.splits option.splits)
  with d Cons.IH [OF d] show ?case by auto
qed

text \<open>
  C10. While \<^verbatim>\<open>sessionStorage\<close> can be read and written, in a session that starts
  with no request issued, after any sequence of calls of \<^verbatim>\<open>sendAnalyticsEvent\<close>
  (top-level calls and the re-entries of scheduled retries, for any events, timer ids and
  paths) at most one impression request has been issued for a given timer id and path;
  the same holds when a further impression call is followed through its retries, whatever
  the requests' outcomes. Once an impression call for the timer id and path has been made,
  every later impression call for them, a scheduled retry included, returns without a
  request.
\<close>

theorem impression_at_most_once:
  "readable (session a) \<and> writable (session a) \<and> requests a = [] \<longrightarrow>
     length (impressions_of timerId path (session_calls calls a)) \<le> 1 \<and>
     length (impressions_of timerId path
               (snd (submission ''impression'' timerId 0 path outcomes (session_calls calls a))))
       \<le> 1 \<and>
     fst (sendAnalyticsEvent ''impression'' timerId retryCount' path
            (session_calls calls
               (snd (sendAnalyticsEvent ''impression'' timerId retryCount path a))))
       = False"
proof (intro impI)
  assume a: "readable (session a) \<and> writable (session a) \<and> requests a = []"
  have d0: "deduplicated timerId path a"
    using a by (simp add: deduplicated_def impressions_of_def)
  have d1: "deduplicated timerId path (session_calls calls a)"
    using d0 by (rule calls_keep_deduplicated)
  have d2: "deduplicated timerId path
              (snd (submission ''impression'' timerId 0 path outcomes (session_calls calls a)))"
    using d1 by (rule submission_keeps_deduplicated)
  let ?a1 = "snd (sendAnalyticsEvent ''impression'' timerId retryCount path a)"
  have again: "fst (sendAnalyticsEvent ''impression'' timerId retryCount' path
                      (session_calls calls ?a1)) = False"
  proof (cases "timerId = []")
    case True
    then show ?thesis by (simp add: sendAnalyticsEvent_def)
  next
    case False
    have r1: "readable (session ?a1)" using a by (simp add: send_keeps_access)
    have "alreadyTracked timerId path ?a1"
    proof (cases "alreadyTracked timerId path a")
      case True
      then show ?thesis by (simp add: send_impression_tracked)
    next
      case fresh: False
      show ?thesis
        unfolding send_impression_fresh [OF False fresh] using a
        by (simp add: tracked_after_mark)
    qed
    with r1 have "alreadyTracked timerId path (session_calls calls ?a1)"
      by (rule calls_keep_tracked)
    then show ?thesis by (simp add: send_impression_tracked)
  qed
  from d1 d2 again show "length (impressions_of timerId path (session_calls calls a)) \<le> 1 \<and>
     length (impressions_of timerId path
               (snd (submission ''impression'' timerId 0 path outcomes (session_calls calls a))))
       \<le> 1 \<and>
     fst (sendAnalyticsEvent ''impression'' timerId retryCount' path
            (session_calls calls
               (snd (sendAnalyticsEvent ''impression'' timerId retryCount path a))))
       = False"
    by (simp add: deduplicated_def)
qed

theorem impression_at_most_once_witness:
  "length (impressions_of ''t1'' ''/''
             (session_calls
                [(''impression'', ''t1'', 0, ''/''), (''click'', ''t1'', 0, ''/''),
                 (''impression'', ''t1'', 1, ''/'')]
                new_session)) \<le> 1 \<and>
   fst (sendAnalyticsEvent ''impression'' ''t1'' 1 ''/''
          (session_calls [(''click'', ''t1'', 0, ''/'')]
             (snd (sendAnalyticsEvent ''impression'' ''t1'' 0 ''/'' new_session)))) = False"
proof -
  have ok: "readable (session new_session) \<and> writable (session new_session) \<and>
            requests new_session = []"
    by (simp add: new_session_def empty_storage_def)
  have "length (impressions_of ''t1'' ''/''
             (session_calls
                [(''impression'', ''t1'', 0, ''/''), (''click'', ''t1'', 0, ''/''),
                 (''impression'', ''t1'', 1, ''/'')]
                new_session)) \<le> 1"
    using ok
      impression_at_most_once [of new_session "''t1''" "''/''"
        "[(''impression'', ''t1'', 0, ''/''), (''click'', ''t1'', 0, ''/''),
          (''impression'', ''t1'', 1, ''/'')]"]
    by blast
  moreover have "fst (sendAnalyticsEvent ''impression'' ''t1'' 1 ''/''
          (session_calls [(''click'', ''t1'', 0, ''/'')]
             (snd (sendAnalyticsEvent ''impression'' ''t1'' 0 ''/'' new_session)))) = False"
    using ok
      impression_at_most_once [of new_session "''t1''" "''/''" "[(''click'', ''t1'', 0, ''/'')]"
        _ 1 0]
    by blast
  ultimately show ?thesis by blast
qed

text \<open>
  With the session storage blocked the mark is never written: an impression whose
  requests are answered with 503 is sent four times, the first call and three retries.
\<close>

theorem impression_retries_counterexample:
  "length (impressions_of ''t1'' ''/''
             (snd (submission ''impression'' ''t1'' 0 ''/''
                     [Responded 503 True, Responded 503 True, Responded 503 True,
                      Responded 503 True]
                     blocked_session))) = 4"
  by code_simp

end
